theory Spec2Isabelle
  imports Complex_Main "HOL-Library.Word"
begin

unbundle bit_operations_syntax

section \<open>The voice session of \<open>VoiceInterface.tsx\<close>\<close>

text \<open>
  A shallow embedding of the realtime voice component (\<open>src/components/VoiceInterface.tsx\<close>):
  the PCM codec, the playback scheduler, the server-message handler, the activity-state
  derivation of the visualizer and the start/stop lifecycle.

  JavaScript numbers are modelled as \<^typ>\<open>real\<close>. For the codec this is exact on finite
  inputs: a \<open>Float32Array\<close> sample has a 24-bit significand, so its products with
  \<open>0x8000\<close> and \<open>0x7FFF\<close> and the quotient of a 16-bit integer by \<open>32768\<close> are
  computed without rounding in double precision. \<open>NaN\<close> and the infinities are not values
  of the model, except for the mean of an empty array in the visualizer.

  Every handler runs to completion before the next event. The two \<open>await\<close>s
  (\<open>getUserMedia\<close> in \<open>startSession\<close>, \<open>decodeAudioData\<close> in
  \<open>handleServerMessage\<close>) are taken in one step with the code around them, the promise
  of the Live connection is taken as fulfilled, and a React state update takes effect at
  once. What the browser and the network do is read from the arguments of the handlers:
  the outcome of \<open>getUserMedia\<close>, the context time, the analyser readings, the frames
  and the messages.
\<close>

subsection \<open>Exceptions\<close>

text \<open>
  The exceptions the modelled calls can throw: \<open>window.atob\<close> on text that is not base64
  (\<open>InvalidCharacterError\<close>), \<open>new Int16Array(buffer)\<close> on a buffer of odd byte length
  (\<open>RangeError\<close>), \<open>ctx.createBuffer\<close> with a length of zero frames
  (\<open>NotSupportedError\<close>), and \<open>getUserMedia\<close> when the microphone is refused
  (\<open>NotAllowedError\<close>).
\<close>

datatype js_exception = InvalidCharacterError | RangeError | NotSupportedError | NotAllowedError

subsection \<open>PCM codec\<close>

type_synonym int16 = "16 word"
type_synonym uint8 = "8 word"

text \<open>
  Storing a number into an \<open>Int16Array\<close> applies \<open>ToInt16\<close>: the number is truncated
  towards zero and then wrapped modulo \<open>2^16\<close> into the signed range.
\<close>

definition js_trunc :: "real \<Rightarrow> int" where
  "js_trunc x = (if x < 0 then \<lceil>x\<rceil> else \<lfloor>x\<rfloor>)"

definition ToInt16 :: "real \<Rightarrow> int16" where
  "ToInt16 x = word_of_int (js_trunc x)"

text \<open>\<open>Math.max(-1, Math.min(1, data[i]))\<close>\<close>

definition clamp_sample :: "real \<Rightarrow> real" where
  "clamp_sample x = max (-1) (min 1 x)"

text \<open>The body of the loop of \<open>createPcmBlob\<close>: \<open>s < 0 ? s * 0x8000 : s * 0x7FFF\<close>.\<close>

definition sample_to_int16 :: "real \<Rightarrow> int16" where
  "sample_to_int16 x =
     (let s = clamp_sample x in ToInt16 (if s < 0 then s * 32768 else s * 32767))"

text \<open>
  \<open>new Uint8Array(int16.buffer)\<close> and \<open>new Int16Array(data.buffer)\<close> are two views of the
  same memory, two bytes per 16-bit element, low byte first (little-endian hosts).
\<close>

definition int16_bytes :: "int16 \<Rightarrow> uint8 list" where
  "int16_bytes w = [ucast w, ucast (drop_bit 8 w)]"

definition bytes_int16 :: "uint8 \<Rightarrow> uint8 \<Rightarrow> int16" where
  "bytes_int16 lo hi = ucast lo OR push_bit 8 (ucast hi)"

fun Uint8Array_of_Int16Array :: "int16 list \<Rightarrow> uint8 list" where
  "Uint8Array_of_Int16Array [] = []"
| "Uint8Array_of_Int16Array (w # ws) = int16_bytes w @ Uint8Array_of_Int16Array ws"

text \<open>\<open>new Int16Array(buffer)\<close> throws a \<open>RangeError\<close> when a byte is left over.\<close>

fun Int16Array_of_buffer :: "uint8 list \<Rightarrow> js_exception + int16 list" where
  "Int16Array_of_buffer [] = Inr []"
| "Int16Array_of_buffer [b] = Inl RangeError"
| "Int16Array_of_buffer (lo # hi # bs) =
     (case Int16Array_of_buffer bs of
        Inl e \<Rightarrow> Inl e
      | Inr ws \<Rightarrow> Inr (bytes_int16 lo hi # ws))"

text \<open>
  The PCM bytes \<open>createPcmBlob\<close> hands to \<open>uint8ArrayToBase64\<close>: every sample clamped,
  scaled and stored as a 16-bit integer.
\<close>

definition createPcmBlob_bytes :: "real list \<Rightarrow> uint8 list" where
  "createPcmBlob_bytes data = Uint8Array_of_Int16Array (map sample_to_int16 data)"

text \<open>
  An \<open>AudioBuffer\<close> with one channel. \<open>decodeAudioData\<close> creates it with
  \<open>ctx.createBuffer(1, float32.length, 24000)\<close>, which throws a \<open>NotSupportedError\<close> when
  the length is zero; its duration is the number of frames over the sample rate.
\<close>

record AudioBuffer =
  channel :: "real list"
  sampleRate :: nat

definition duration :: "AudioBuffer \<Rightarrow> real" where
  "duration b = real (length (channel b)) / real (sampleRate b)"

definition createBuffer :: "real list \<Rightarrow> nat \<Rightarrow> js_exception + AudioBuffer" where
  "createBuffer float32 rate =
     (if float32 = [] \<or> rate = 0 then Inl NotSupportedError
      else Inr \<lparr>channel = float32, sampleRate = rate\<rparr>)"

text \<open>The body of the loop of \<open>decodeAudioData\<close>: \<open>data16[i] / 32768.0\<close>.\<close>

definition int16_to_float :: "int16 \<Rightarrow> real" where
  "int16_to_float w = real_of_int (sint w) / 32768"

definition decodeAudioData :: "uint8 list \<Rightarrow> js_exception + AudioBuffer" where
  "decodeAudioData data =
     (case Int16Array_of_buffer data of
        Inl e \<Rightarrow> Inl e
      | Inr data16 \<Rightarrow> createBuffer (map int16_to_float data16) 24000)"

subsection \<open>Text transport encoding\<close>

text \<open>
  \<open>window.btoa\<close> and \<open>window.atob\<close> are the browser's. They are modelled after the
  base64 encoding they implement: \<open>btoa\<close> maps three bytes to four characters of the
  alphabet and pads with \<open>=\<close>; \<open>atob\<close> drops ASCII whitespace, drops one or two
  trailing \<open>=\<close> when the length is a multiple of four, and throws an
  \<open>InvalidCharacterError\<close> when the remaining length is \<open>1\<close> modulo \<open>4\<close> or a
  character is outside the alphabet. A binary string is a \<^typ>\<open>string\<close> whose characters
  are the bytes.
\<close>

text \<open>The alphabet: \<open>A\<close>-\<open>Z\<close>, \<open>a\<close>-\<open>z\<close>, \<open>0\<close>-\<open>9\<close>, \<open>+\<close> and \<open>/\<close>, by character code.\<close>

definition b64_char :: "nat \<Rightarrow> char" where
  "b64_char n =
     (if n < 26 then char_of (n + 65)
      else if n < 52 then char_of (n + 71)
      else if n < 62 then char_of (n - 4)
      else if n = 62 then CHR ''+''
      else CHR ''/'')"

definition b64_index :: "char \<Rightarrow> nat option" where
  "b64_index c =
     (let n = (of_char c :: nat) in
      if 65 \<le> n \<and> n \<le> 90 then Some (n - 65)
      else if 97 \<le> n \<and> n \<le> 122 then Some (n - 71)
      else if 48 \<le> n \<and> n \<le> 57 then Some (n + 4)
      else if n = 43 then Some 62
      else if n = 47 then Some 63
      else None)"

text \<open>Three bytes are four groups of six bits; one or two left-over bytes are padded with zero bits.\<close>

fun b64_sextets :: "nat list \<Rightarrow> nat list" where
  "b64_sextets (a # b # c # r) =
     (let n = a * 65536 + b * 256 + c
      in [n div 262144, (n div 4096) mod 64, (n div 64) mod 64, n mod 64]) @ b64_sextets r"
| "b64_sextets [a, b] =
     (let n = (a * 256 + b) * 4 in [n div 4096, (n div 64) mod 64, n mod 64])"
| "b64_sextets [a] = (let n = a * 16 in [n div 64, n mod 64])"
| "b64_sextets [] = []"

definition btoa :: "string \<Rightarrow> string" where
  "btoa binary =
     map b64_char (b64_sextets (map of_char binary))
     @ replicate ((3 - length binary mod 3) mod 3) (CHR ''='')"

text \<open>Four groups of six bits are three bytes; the bits left over at the end are dropped.\<close>

fun b64_octets :: "nat list \<Rightarrow> nat list" where
  "b64_octets (a # b # c # d # r) =
     (let n = ((a * 64 + b) * 64 + c) * 64 + d
      in [n div 65536, (n div 256) mod 256, n mod 256]) @ b64_octets r"
| "b64_octets [a, b, c] =
     (let n = ((a * 64 + b) * 64 + c) div 4 in [n div 256, n mod 256])"
| "b64_octets [a, b] = [(a * 64 + b) div 16]"
| "b64_octets [a] = []"
| "b64_octets [] = []"

definition ascii_whitespace :: "char \<Rightarrow> bool" where
  "ascii_whitespace c = ((of_char c :: nat) \<in> {9, 10, 12, 13, 32})"

definition strip_padding :: "string \<Rightarrow> string" where
  "strip_padding t =
     (if length t mod 4 \<noteq> 0 then t
      else if t \<noteq> [] \<and> last t = CHR ''='' then
        (if butlast t \<noteq> [] \<and> last (butlast t) = CHR ''='' then butlast (butlast t)
         else butlast t)
      else t)"

definition atob :: "string \<Rightarrow> js_exception + string" where
  "atob base64 =
     (let t = strip_padding (filter (\<lambda>c. \<not> ascii_whitespace c) base64)
      in if length t mod 4 = 1 \<or> (\<exists>c \<in> set t. b64_index c = None)
         then Inl InvalidCharacterError
         else Inr (map char_of (b64_octets (map (\<lambda>c. the (b64_index c)) t))))"

text \<open>
  \<open>uint8ArrayToBase64\<close>: \<open>String.fromCharCode\<close> of every byte, then \<open>btoa\<close>.
  \<open>base64ToUint8Array\<close>: \<open>atob\<close>, then \<open>charCodeAt\<close> of every character.
\<close>

definition uint8ArrayToBase64 :: "uint8 list \<Rightarrow> string" where
  "uint8ArrayToBase64 bytes = btoa (map (\<lambda>b. char_of (unat b)) bytes)"

definition base64ToUint8Array :: "string \<Rightarrow> js_exception + uint8 list" where
  "base64ToUint8Array base64 =
     (case atob base64 of
        Inl e \<Rightarrow> Inl e
      | Inr binary \<Rightarrow> Inr (map (\<lambda>c. of_nat (of_char c)) binary))"

record Blob =
  blob_data :: string
  mimeType :: string

definition createPcmBlob :: "real list \<Rightarrow> Blob" where
  "createPcmBlob samples =
     \<lparr>blob_data = uint8ArrayToBase64 (createPcmBlob_bytes samples),
      mimeType = ''audio/pcm;rate=16000''\<rparr>"

subsection \<open>The component: React state, refs, and the browser around them\<close>

datatype Status = Connecting | Connected | Error

datatype VoiceState = Listening | Speaking | Idle

datatype TranscriptSource = User | AI

datatype CollaborationMode = Collaborative | Competitive | Hierarchical

record Transcript =
  tr_text :: string
  tr_source :: TranscriptSource

text \<open>
  The fields of a \<open>LiveServerMessage\<close> that \<open>handleServerMessage\<close> reads:
  \<open>serverContent?.modelTurn?.parts?.[0]?.inlineData?.data\<close>,
  \<open>serverContent?.outputTranscription?.text\<close> and
  \<open>serverContent?.inputTranscription?.text\<close>; \<open>None\<close> where a link of the chain is
  missing. A JavaScript condition on such a value holds when it is a non-empty string.
\<close>

record LiveServerMessage =
  inlineData :: "string option"
  outputTranscription :: "string option"
  inputTranscription :: "string option"

fun truthy :: "string option \<Rightarrow> bool" where
  "truthy None = False"
| "truthy (Some t) = (t \<noteq> [])"

text \<open>
  The \<open>ScriptProcessorNode\<close> of a session. Its \<open>onaudioprocess\<close> handler is a closure
  created inside \<open>startSession\<close>: the \<open>isMuted\<close> it tests is the constant of the render
  whose effect called \<open>startSession\<close>, so the node carries that value. The effect depends
  on \<open>[active, mode]\<close> only; \<open>setIsMuted\<close> re-renders but does not replace the handler.
\<close>

record ScriptProcessorNode =
  closure_isMuted :: bool

record AudioBufferSourceNode =
  node_id :: nat
  node_buffer :: AudioBuffer
  start_when :: real

text \<open>
  What one visualization tick reads from outside the component: whether the canvas and its
  2d context exist, and the magnitudes the two analysers would report
  (\<open>getByteFrequencyData\<close>).
\<close>

record Tick =
  canvas2d :: bool
  inFreq :: "uint8 list"
  outFreq :: "uint8 list"

text \<open>
  The state of one mounted \<open>VoiceInterface\<close>: its React state (\<open>status\<close> to
  \<open>transcript\<close>), its refs (\<open>audioContextRef\<close> to \<open>transcriptTimeoutRef\<close>), and the
  part of the browser and of the network its functions act on: the microphone streams
  whose tracks are live, the audio contexts not closed, the Live connections the component
  has opened and not closed, the realtime inputs sent with the connection they were sent
  on, the \<open>source.start\<close> calls made, the armed animation frame and transcript timer,
  the last frame drawn (is the output dominant, and the dataset), the lines the component
  wrote to the console, the promise rejections nobody handled, and a counter for fresh
  object identities. Objects are identified by numbers; \<open>animationFrameRef\<close> is \<open>0\<close>
  until a frame is requested.
\<close>

record VoiceInterface =
  status :: Status
  isMuted :: bool
  voiceState :: VoiceState
  transcript :: "Transcript option"
  audioContextRef :: "nat option"
  inputNodeRef :: "ScriptProcessorNode option"
  streamRef :: "nat option"
  nextStartTimeRef :: real
  sourcesRef :: "AudioBufferSourceNode list"
  sessionRef :: "nat option"
  animationFrameRef :: nat
  inputAnalyserRef :: "nat option"
  outputAnalyserRef :: "nat option"
  transcriptTimeoutRef :: "nat option"
  live_streams :: "nat list"
  open_contexts :: "nat list"
  open_connections :: "(nat \<times> CollaborationMode) list"
  sent_inputs :: "(nat \<times> Blob) list"
  started_sources :: "AudioBufferSourceNode list"
  pending_frame :: "nat option"
  pending_timeout :: "nat option"
  canvas_frame :: "(bool \<times> uint8 list) option"
  console :: "string list"
  unhandled_rejections :: "js_exception list"
  next_id :: nat

text \<open>The component as mounted: \<open>useState\<close> and \<open>useRef\<close> initial values.\<close>

definition mounted :: VoiceInterface where
  "mounted =
     \<lparr>status = Connecting, isMuted = False, voiceState = Idle, transcript = None,
      audioContextRef = None, inputNodeRef = None, streamRef = None,
      nextStartTimeRef = 0, sourcesRef = [], sessionRef = None, animationFrameRef = 0,
      inputAnalyserRef = None, outputAnalyserRef = None, transcriptTimeoutRef = None,
      live_streams = [], open_contexts = [], open_connections = [], sent_inputs = [],
      started_sources = [], pending_frame = None, pending_timeout = None,
      canvas_frame = None, console = [], unhandled_rejections = [], next_id = 1\<rparr>"

subsection \<open>Transcript\<close>

text \<open>
  \<open>setTranscript\<close> followed by the effect on \<open>[transcript]\<close>: a transcript that is not
  null clears the armed timer and arms a new one of four seconds.
\<close>

definition setTranscript :: "Transcript option \<Rightarrow> VoiceInterface \<Rightarrow> VoiceInterface" where
  "setTranscript t s =
     (case t of
        None \<Rightarrow> s\<lparr>transcript := None\<rparr>
      | Some _ \<Rightarrow> s\<lparr>transcript := t,
                     transcriptTimeoutRef := Some (next_id s),
                     pending_timeout := Some (next_id s),
                     next_id := Suc (next_id s)\<rparr>)"

text \<open>The timer's callback: \<open>setTranscript(null)\<close>.\<close>

definition transcript_timeout :: "VoiceInterface \<Rightarrow> VoiceInterface" where
  "transcript_timeout s =
     (case pending_timeout s of
        None \<Rightarrow> s
      | Some _ \<Rightarrow> setTranscript None (s\<lparr>pending_timeout := None\<rparr>))"

text \<open>\<open>(prev?.source === src ? prev.text : '') + delta\<close>\<close>

definition append_delta :: "TranscriptSource \<Rightarrow> string \<Rightarrow> Transcript option \<Rightarrow> Transcript" where
  "append_delta src delta prev =
     \<lparr>tr_text = (case prev of
                   None \<Rightarrow> []
                 | Some p \<Rightarrow> if tr_source p = src then tr_text p else []) @ delta,
      tr_source = src\<rparr>"

subsection \<open>Playback scheduler\<close>

text \<open>
  \<open>playAudio\<close>, with \<open>now\<close> the \<open>currentTime\<close> of the context the handler closed over.
  None of its calls depends on the state of that context.
\<close>

definition playAudio :: "AudioBuffer \<Rightarrow> real \<Rightarrow> VoiceInterface \<Rightarrow> VoiceInterface" where
  "playAudio buffer now s =
     (let start = (if nextStartTimeRef s < now then now else nextStartTimeRef s);
          node = \<lparr>node_id = next_id s, node_buffer = buffer, start_when = start\<rparr>
      in s\<lparr>nextStartTimeRef := start + duration buffer,
           sourcesRef := sourcesRef s @ [node],
           started_sources := started_sources s @ [node],
           next_id := Suc (next_id s)\<rparr>)"

text \<open>\<open>source.onended\<close>: the source leaves the set.\<close>

definition onended :: "nat \<Rightarrow> VoiceInterface \<Rightarrow> VoiceInterface" where
  "onended i s = s\<lparr>sourcesRef := filter (\<lambda>n. node_id n \<noteq> i) (sourcesRef s)\<rparr>"

text \<open>The chunks of a session in order, each with the context time at which it is played.\<close>

definition play_all :: "(AudioBuffer \<times> real) list \<Rightarrow> VoiceInterface \<Rightarrow> VoiceInterface" where
  "play_all chunks s = fold (\<lambda>(buffer, now). playAudio buffer now) chunks s"

subsection \<open>Server messages\<close>

text \<open>
  \<open>handleServerMessage\<close>. A throw inside the \<open>async\<close> function rejects its promise:
  the result is \<open>Inl\<close> and nothing after the throwing call has run. The \<open>await\<close> of
  \<open>decodeAudioData\<close>, which has no asynchronous step of its own, is taken in one step.
\<close>

definition handleServerMessage ::
  "LiveServerMessage \<Rightarrow> real \<Rightarrow> VoiceInterface \<Rightarrow> js_exception + VoiceInterface" where
  "handleServerMessage message now s =
     (case (if truthy (inlineData message)
            then (case base64ToUint8Array (the (inlineData message)) of
                    Inl e \<Rightarrow> Inl e
                  | Inr audioData \<Rightarrow>
                      (case decodeAudioData audioData of
                         Inl e \<Rightarrow> Inl e
                       | Inr audioBuffer \<Rightarrow> Inr (playAudio audioBuffer now s)))
            else Inr s) of
        Inl e \<Rightarrow> Inl e
      | Inr s1 \<Rightarrow>
          Inr (if truthy (outputTranscription message)
               then setTranscript
                      (Some (append_delta AI (the (outputTranscription message)) (transcript s1))) s1
               else if truthy (inputTranscription message)
               then setTranscript
                      (Some (append_delta User (the (inputTranscription message)) (transcript s1))) s1
               else s1))"

text \<open>
  The \<open>onmessage\<close> callback calls \<open>handleServerMessage\<close> without awaiting or catching:
  a rejection is handled by nobody.
\<close>

definition onmessage :: "LiveServerMessage \<Rightarrow> real \<Rightarrow> VoiceInterface \<Rightarrow> VoiceInterface" where
  "onmessage msg now s =
     (case handleServerMessage msg now s of
        Inl e \<Rightarrow> s\<lparr>unhandled_rejections := unhandled_rejections s @ [e]\<rparr>
      | Inr s' \<Rightarrow> s')"

definition onopen :: "VoiceInterface \<Rightarrow> VoiceInterface" where
  "onopen s = s\<lparr>status := Connected, console := console s @ [''Live Session Connected'']\<rparr>"

definition onclose :: "VoiceInterface \<Rightarrow> VoiceInterface" where
  "onclose s = s\<lparr>console := console s @ [''Live Session Closed'']\<rparr>"

definition onerror :: "VoiceInterface \<Rightarrow> VoiceInterface" where
  "onerror s = s\<lparr>status := Error, console := console s @ [''Live Session Error'']\<rparr>"

subsection \<open>Visualizer\<close>

text \<open>
  A JavaScript number that may be \<open>NaN\<close> (the mean of an empty array is \<open>0 / 0\<close>);
  every comparison with \<open>NaN\<close> is false.
\<close>

datatype js_number = NaN | Num real

fun js_gt :: "js_number \<Rightarrow> real \<Rightarrow> bool" where
  "js_gt NaN y = False"
| "js_gt (Num x) y = (y < x)"

text \<open>\<open>data.reduce((a, b) => a + b, 0) / data.length\<close>\<close>

definition mean_energy :: "uint8 list \<Rightarrow> js_number" where
  "mean_energy d =
     (if d = [] then NaN else Num (real (sum_list (map unat d)) / real (length d)))"

text \<open>The three-way test on the two means.\<close>

definition activity_state :: "js_number \<Rightarrow> js_number \<Rightarrow> VoiceState" where
  "activity_state outEnergy inEnergy =
     (if js_gt outEnergy 10 then Speaking
      else if js_gt inEnergy 10 then Listening
      else Idle)"

text \<open>
  \<open>renderVisualizer\<close>, without the pixels: it returns at once when there is no canvas;
  otherwise it reads both analysers (an absent analyser gives an empty array), sets the
  voice state, picks the dataset to draw and requests the next animation frame.
\<close>

definition getByteFrequencyData :: "nat option \<Rightarrow> uint8 list \<Rightarrow> uint8 list" where
  "getByteFrequencyData analyserRef freq = (case analyserRef of None \<Rightarrow> [] | Some _ \<Rightarrow> freq)"

definition renderVisualizer :: "Tick \<Rightarrow> VoiceInterface \<Rightarrow> VoiceInterface" where
  "renderVisualizer tick s =
     (if \<not> canvas2d tick then s
      else
        let inData = getByteFrequencyData (inputAnalyserRef s) (inFreq tick);
            outData = getByteFrequencyData (outputAnalyserRef s) (outFreq tick);
            inEnergy = mean_energy inData;
            outEnergy = mean_energy outData;
            isOutputDominant = js_gt outEnergy 5
        in s\<lparr>voiceState := activity_state outEnergy inEnergy,
             canvas_frame := Some (isOutputDominant, if isOutputDominant then outData else inData),
             animationFrameRef := next_id s,
             pending_frame := Some (next_id s),
             next_id := Suc (next_id s)\<rparr>)"

subsection \<open>Capture\<close>

text \<open>
  \<open>scriptProcessor.onaudioprocess\<close> for one captured frame: the handler of the node in
  \<open>inputNodeRef\<close> tests the \<open>isMuted\<close> of its closure, then encodes the frame and
  sends it through the session in \<open>sessionRef\<close>, if any
  (\<open>sessionRef.current?.then(...)\<close>). The input analyser sits before the processor in
  the audio graph and sees every frame, whatever the handler does: its readings are the
  \<open>inFreq\<close> of a tick.
\<close>

definition onaudioprocess :: "real list \<Rightarrow> VoiceInterface \<Rightarrow> VoiceInterface" where
  "onaudioprocess inputData s =
     (case inputNodeRef s of
        None \<Rightarrow> s
      | Some node \<Rightarrow>
          if closure_isMuted node then s
          else (case sessionRef s of
                  None \<Rightarrow> s
                | Some session \<Rightarrow>
                    s\<lparr>sent_inputs := sent_inputs s @ [(session, createPcmBlob inputData)]\<rparr>))"

text \<open>The mute button: \<open>setIsMuted(!isMuted)\<close>.\<close>

definition toggle_mute :: "VoiceInterface \<Rightarrow> VoiceInterface" where
  "toggle_mute s = s\<lparr>isMuted := \<not> isMuted s\<rparr>"

subsection \<open>Lifecycle\<close>

text \<open>
  \<open>stopSession\<close>: cancels the animation frame and the transcript timer, stops the tracks
  of the stream, disconnects the input node, closes the playback context, drops the
  session reference (\<open>sessionRef.current = null\<close>, no call on the session), and resets
  status, voice state and transcript.
\<close>

definition stopSession :: "VoiceInterface \<Rightarrow> VoiceInterface" where
  "stopSession s =
     s\<lparr>pending_frame :=
         (if animationFrameRef s \<noteq> 0 \<and> pending_frame s = Some (animationFrameRef s)
          then None else pending_frame s),
       pending_timeout :=
         (case transcriptTimeoutRef s of
            None \<Rightarrow> pending_timeout s
          | Some t \<Rightarrow> if pending_timeout s = Some t then None else pending_timeout s),
       live_streams :=
         (case streamRef s of
            None \<Rightarrow> live_streams s
          | Some stream \<Rightarrow> removeAll stream (live_streams s)),
       streamRef := None,
       inputNodeRef := None,
       open_contexts :=
         (case audioContextRef s of
            None \<Rightarrow> open_contexts s
          | Some ctx \<Rightarrow> removeAll ctx (open_contexts s)),
       audioContextRef := None,
       sessionRef := None,
       status := Connecting,
       voiceState := Idle,
       transcript := None\<rparr>"

text \<open>
  \<open>startSession\<close> for the mode of the render that runs it. \<open>gum\<close> is the outcome of
  \<open>getUserMedia\<close>; the \<open>await\<close> is taken in one step with what precedes and follows it.
  The objects created take fresh identities: the playback context, its analyser, the
  stream, the capture context, its analyser, and last the connection. The capture context
  is kept in no ref. A rejected \<open>getUserMedia\<close> is caught, logged and shown as
  \<open>Error\<close>.
\<close>

definition startSession ::
  "CollaborationMode \<Rightarrow> js_exception + unit \<Rightarrow> Tick \<Rightarrow> VoiceInterface \<Rightarrow> VoiceInterface" where
  "startSession mode gum tick s =
     (let n = next_id s;
          s1 = s\<lparr>status := Connecting,
                 audioContextRef := Some n,
                 open_contexts := open_contexts s @ [n],
                 outputAnalyserRef := Some (n + 1),
                 next_id := n + 2\<rparr>
      in case gum of
           Inl e \<Rightarrow>
             s1\<lparr>console := console s1 @ [''Failed to start voice session''], status := Error\<rparr>
         | Inr _ \<Rightarrow>
             let s2 = s1\<lparr>streamRef := Some (n + 2),
                        live_streams := live_streams s1 @ [n + 2],
                        open_contexts := open_contexts s1 @ [n + 3],
                        inputAnalyserRef := Some (n + 4),
                        inputNodeRef := Some \<lparr>closure_isMuted = isMuted s\<rparr>,
                        next_id := n + 5\<rparr>;
                 s3 = renderVisualizer tick s2;
                 c = next_id s3
             in s3\<lparr>sessionRef := Some c,
                   open_connections := open_connections s3 @ [(c, mode)],
                   next_id := Suc c\<rparr>)"

text \<open>
  The effect on \<open>[active, mode]\<close>. When either changes, React runs the cleanup of the
  previous run, \<open>stopSession\<close>, and then the effect body.
\<close>

definition effect_body ::
  "bool \<Rightarrow> CollaborationMode \<Rightarrow> js_exception + unit \<Rightarrow> Tick \<Rightarrow> VoiceInterface \<Rightarrow> VoiceInterface" where
  "effect_body active mode gum tick s =
     (if active then startSession mode gum tick s else stopSession s)"

definition props_changed ::
  "bool \<Rightarrow> CollaborationMode \<Rightarrow> js_exception + unit \<Rightarrow> Tick \<Rightarrow> VoiceInterface \<Rightarrow> VoiceInterface" where
  "props_changed active mode gum tick s = effect_body active mode gum tick (stopSession s)"

subsection \<open>Runs\<close>

text \<open>Everything that can happen to a mounted component, and what each event calls.\<close>

datatype event =
    PropsChanged bool CollaborationMode "js_exception + unit" Tick
  | ToggleMute
  | AudioProcess "real list"
  | OnOpen
  | OnClose
  | OnError
  | OnMessage LiveServerMessage real
  | AnimationFrame Tick
  | SourceEnded nat
  | TranscriptTimeout

fun step :: "event \<Rightarrow> VoiceInterface \<Rightarrow> VoiceInterface" where
  "step (PropsChanged active mode gum tick) s = props_changed active mode gum tick s"
| "step ToggleMute s = toggle_mute s"
| "step (AudioProcess inputData) s = onaudioprocess inputData s"
| "step OnOpen s = onopen s"
| "step OnClose s = onclose s"
| "step OnError s = onerror s"
| "step (OnMessage msg now) s = onmessage msg now s"
| "step (AnimationFrame tick) s =
     (case pending_frame s of
        None \<Rightarrow> s
      | Some _ \<Rightarrow> renderVisualizer tick (s\<lparr>pending_frame := None\<rparr>))"
| "step (SourceEnded i) s = onended i s"
| "step TranscriptTimeout s = transcript_timeout s"

definition run :: "event list \<Rightarrow> VoiceInterface \<Rightarrow> VoiceInterface" where
  "run evs s = fold step evs s"

subsection \<open>Decoding of one chunk, and sample inputs\<close>

text \<open>
  What \<open>handleServerMessage\<close> computes from the payload before it calls \<open>playAudio\<close>:
  \<open>base64ToUint8Array\<close>, then \<open>decodeAudioData\<close>.
\<close>

definition decoded_chunk :: "string \<Rightarrow> js_exception + AudioBuffer" where
  "decoded_chunk base64Audio =
     (case base64ToUint8Array base64Audio of
        Inl e \<Rightarrow> Inl e
      | Inr audioData \<Rightarrow> decodeAudioData audioData)"

text \<open>
  Inputs for the concrete runs below: a tick with a canvas, a quiet output (mean 8) and a
  loud input (mean 20) over 256 bins; a message with two frames of audio (the bytes
  \<open>00 00 01 00\<close>) and both transcriptions; a message whose payload is a single byte;
  and the component after its first activation in mode \<open>Collaborative\<close> with the
  microphone granted.
\<close>

definition sample_tick :: Tick where
  "sample_tick = \<lparr>canvas2d = True, inFreq = replicate 256 20, outFreq = replicate 256 8\<rparr>"

definition two_frames :: LiveServerMessage where
  "two_frames =
     \<lparr>inlineData = Some ''AAABAA=='',
      outputTranscription = Some ''Hello'',
      inputTranscription = Some ''Hi''\<rparr>"

definition odd_payload :: LiveServerMessage where
  "odd_payload =
     \<lparr>inlineData = Some ''AA=='',
      outputTranscription = Some ''Hello'',
      inputTranscription = None\<rparr>"

definition active_session :: VoiceInterface where
  "active_session = props_changed True Collaborative (Inr ()) sample_tick mounted"

text \<open>
  Three chunks for the scheduler: two buffers of two frames arriving together at context
  time 1, then a buffer of one frame arriving late, at time 5.
\<close>

definition burst_then_late :: "(AudioBuffer \<times> real) list" where
  "burst_then_late =
     [(\<lparr>channel = [0, 1 / 2], sampleRate = 24000\<rparr>, 1),
      (\<lparr>channel = [0, 1 / 2], sampleRate = 24000\<rparr>, 1),
      (\<lparr>channel = [1 / 4], sampleRate = 24000\<rparr>, 5)]"

section \<open>Properties\<close>

subsection \<open>Text transport round trip\<close>

text \<open>
  Every group of six bits that \<open>btoa\<close> produces is below 64, its character is in the
  alphabet and is neither padding nor whitespace, and \<open>atob\<close> reads it back.
\<close>

lemma of_char_b64_char:
  assumes "n < 64"
  shows "(of_char (b64_char n) :: nat) =
           (if n < 26 then n + 65 else if n < 52 then n + 71 else if n < 62 then n - 4
            else if n = 62 then 43 else 47)"
  using assms by (simp add: b64_char_def)

lemma b64_index_char: "n < 64 \<Longrightarrow> b64_index (b64_char n) = Some n"
  by (auto simp add: b64_index_def of_char_b64_char Let_def)

lemma b64_char_plain:
  assumes "n < 64"
  shows "b64_char n \<noteq> CHR ''=''" and "\<not> ascii_whitespace (b64_char n)"
proof -
  have "(of_char (b64_char n) :: nat) \<noteq> 61"
    using assms by (auto simp add: of_char_b64_char)
  then show "b64_char n \<noteq> CHR ''=''" by auto
  show "\<not> ascii_whitespace (b64_char n)"
    using assms by (auto simp add: ascii_whitespace_def of_char_b64_char)
qed

lemma sextets_lt_64:
  "\<forall>b \<in> set bs. b < 256 \<Longrightarrow> \<forall>v \<in> set (b64_sextets bs). v < 64"
proof (induction bs rule: b64_sextets.induct)
  case (1 a b c r)
  then have "a < 256" "b < 256" "c < 256" by simp_all
  then have "(a * 65536 + b * 256 + c) div 262144 < 64" by simp
  with 1 show ?case by (simp add: Let_def)
next
  case (2 a b)
  then have "a < 256" "b < 256" by simp_all
  then have "(a * 256 + b) * 4 div 4096 < 64" by simp
  then show ?case by (simp add: Let_def)
next
  case (3 a)
  then have "a * 16 div 64 < 64" by simp
  then show ?case by (simp add: Let_def)
next
  case 4
  show ?case by simp
qed

lemma recombine3:
  fixes n :: nat
  assumes "n = 64 * q0 + r0" and "q0 = 64 * q1 + r1" and "q1 = 64 * q2 + r2"
  shows "((q2 * 64 + r2) * 64 + r1) * 64 + r0 = n"
  using assms by simp

lemma re4:
  fixes n :: nat
  shows "((n div 262144 * 64 + n div 4096 mod 64) * 64 + n div 64 mod 64) * 64 + n mod 64 = n"
proof -
  have a: "n div 4096 = n div 64 div 64" and b: "n div 262144 = n div 64 div 64 div 64"
    by (simp_all add: div_mult2_eq [symmetric])
  show ?thesis
    unfolding a b
    by (rule recombine3) (rule mult_div_mod_eq [symmetric])+
qed

lemma mod_low: "c < 256 \<Longrightarrow> (x * 256 + c) mod 256 = (c::nat)"
  by simp

lemma div_low: "c < 256 \<Longrightarrow> (x * 256 + c) div 256 = (x::nat)"
  by simp

lemma bytes3:
  fixes a b c :: nat
  assumes "b < 256" "c < 256"
  shows "(a * 65536 + b * 256 + c) div 65536 = a"
    and "(a * 65536 + b * 256 + c) div 256 mod 256 = b"
    and "(a * 65536 + b * 256 + c) mod 256 = c"
proof -
  have e: "a * 65536 + b * 256 + c = (a * 256 + b) * 256 + c" by simp
  have d: "(a * 65536 + b * 256 + c) div 256 = a * 256 + b"
    unfolding e by (rule div_low [OF assms(2)])
  have f: "(a * 65536 + b * 256 + c) div 65536 = (a * 65536 + b * 256 + c) div 256 div 256"
    by (simp add: div_mult2_eq [symmetric])
  show "(a * 65536 + b * 256 + c) div 65536 = a"
    unfolding f d by (rule div_low [OF assms(1)])
  show "(a * 65536 + b * 256 + c) div 256 mod 256 = b"
    unfolding d by (rule mod_low [OF assms(1)])
  show "(a * 65536 + b * 256 + c) mod 256 = c"
    unfolding e by (rule mod_low [OF assms(2)])
qed

lemma re3:
  fixes m :: nat
  shows "((m * 4 div 4096 * 64 + m * 4 div 64 mod 64) * 64 + m * 4 mod 64) div 4 = m"
proof -
  define n where "n = m * 4"
  have a: "n div 4096 = n div 64 div 64"
    by (simp add: div_mult2_eq [symmetric])
  have "(n div 64 div 64 * 64 + n div 64 mod 64) * 64 + n mod 64 = n"
    using mult_div_mod_eq [of 64 n] mult_div_mod_eq [of 64 "n div 64"]
    by (simp add: ac_simps)
  then have "((n div 4096 * 64 + n div 64 mod 64) * 64 + n mod 64) div 4 = n div 4"
    unfolding a by simp
  then show ?thesis by (simp add: n_def)
qed

lemma re2:
  fixes a :: nat
  shows "(a * 16 div 64 * 64 + a * 16 mod 64) div 16 = a"
proof -
  define n where "n = a * 16"
  have "n div 64 * 64 + n mod 64 = n" by simp
  then have "(n div 64 * 64 + n mod 64) div 16 = n div 16" by simp
  then show ?thesis by (simp add: n_def)
qed


lemma octets_sextets:
  "\<forall>b \<in> set bs. b < 256 \<Longrightarrow> b64_octets (b64_sextets bs) = bs"
proof (induction bs rule: b64_sextets.induct)
  case (1 a b c r)
  then have lt: "b < 256" "c < 256" and r: "b64_octets (b64_sextets r) = r"
    by simp_all
  define n where "n = a * 65536 + b * 256 + c"
  have "b64_octets (b64_sextets (a # b # c # r))
      = b64_octets ([n div 262144, n div 4096 mod 64, n div 64 mod 64, n mod 64] @ b64_sextets r)"
    by (simp only: b64_sextets.simps Let_def n_def)
  also have "\<dots> = [n div 65536, n div 256 mod 256, n mod 256] @ r"
    by (simp only: append_Cons append_Nil b64_octets.simps Let_def re4 r)
  also have "\<dots> = a # b # c # r"
    unfolding n_def by (simp only: bytes3 [OF lt] append_Cons append_Nil)
  finally show ?case .
next
  case (2 a b)
  then have lt: "b < 256" by simp
  define m where "m = a * 256 + b"
  have "b64_octets (b64_sextets [a, b])
      = b64_octets [m * 4 div 4096, m * 4 div 64 mod 64, m * 4 mod 64]"
    by (simp only: b64_sextets.simps Let_def m_def)
  also have "\<dots> = [m div 256, m mod 256]"
    by (simp only: b64_octets.simps Let_def re3)
  also have "\<dots> = [a, b]"
    unfolding m_def by (simp only: div_low [OF lt] mod_low [OF lt])
  finally show ?case .
next
  case (3 a)
  have "b64_octets (b64_sextets [a]) = b64_octets [a * 16 div 64, a * 16 mod 64]"
    by (simp only: b64_sextets.simps Let_def)
  also have "\<dots> = [a]"
    by (simp only: b64_octets.simps re2)
  finally show ?case .
next
  case 4
  show ?case by simp
qed

lemma length_sextets:
  "length (b64_sextets bs) =
     4 * (length bs div 3) + (if length bs mod 3 = 0 then 0 else length bs mod 3 + 1)"
  by (induction bs rule: b64_sextets.induct) (simp_all add: Let_def)

lemma sextets_Nil: "(b64_sextets bs = []) = (bs = [])"
  by (induction bs rule: b64_sextets.induct) (simp_all add: Let_def)


lemma strip_padding_btoa:
  assumes core: "\<forall>c \<in> set core. c \<noteq> CHR ''=''"
    and len: "length (core @ replicate k (CHR ''='')) mod 4 = 0"
    and k: "k \<le> 2"
  shows "strip_padding (core @ replicate k (CHR ''='')) = core"
proof -
  have last_core: "core \<noteq> [] \<Longrightarrow> last core \<noteq> CHR ''=''"
    using core last_in_set by blast
  consider "k = 0" | "k = 1" | "k = 2" using k by linarith
  then show ?thesis
  proof cases
    case 1
    then show ?thesis using len last_core by (auto simp add: strip_padding_def)
  next
    case 2
    then have core_ne: "core \<noteq> []" using len by auto
    show ?thesis
      using 2 len last_core [OF core_ne] core_ne
      by (simp add: strip_padding_def butlast_append)
  next
    case 3
    then have eq: "core @ replicate k (CHR ''='') = core @ [CHR ''='', CHR ''='']"
      by (simp add: numeral_2_eq_2)
    have b1: "butlast (core @ [CHR ''='', CHR ''='']) = core @ [CHR ''='']"
      by (simp add: butlast_append)
    have b2: "butlast (core @ [CHR ''='']) = core" by simp
    show ?thesis
      unfolding eq using len [unfolded eq]
      by (simp add: strip_padding_def b1 b2)
  qed
qed

lemma pad_cases: "(L::nat) mod 3 = 0 \<or> L mod 3 = 1 \<or> L mod 3 = 2"
  by linarith

lemma pad_le: "(3 - (L::nat) mod 3) mod 3 \<le> 2"
  using pad_cases [of L] by auto

lemma pad_len:
  "(4 * ((L::nat) div 3) + (if L mod 3 = 0 then 0 else L mod 3 + 1) + (3 - L mod 3) mod 3) mod 4 = 0"
  using pad_cases [of L] by auto

lemma core_len:
  "(4 * ((L::nat) div 3) + (if L mod 3 = 0 then 0 else L mod 3 + 1)) mod 4 \<noteq> 1"
  using pad_cases [of L] by auto

lemma atob_btoa: "atob (btoa binary) = Inr binary"
proof -
  let ?bs = "map of_char binary :: nat list"
  let ?sx = "b64_sextets ?bs"
  let ?core = "map b64_char ?sx"
  let ?k = "(3 - length binary mod 3) mod 3"
  have bytes: "\<forall>b \<in> set ?bs. b < 256" by (simp add: nat_of_char_less_256)
  have sx: "\<forall>v \<in> set ?sx. v < 64" by (rule sextets_lt_64 [OF bytes])
  have plain: "\<forall>c \<in> set ?core. c \<noteq> CHR ''='' \<and> \<not> ascii_whitespace c"
    using sx b64_char_plain by auto
  have eqws: "\<not> ascii_whitespace (CHR ''='')" by (simp add: ascii_whitespace_def)
  have filt: "filter (\<lambda>c. \<not> ascii_whitespace c) (btoa binary) = btoa binary"
    using plain eqws by (auto simp add: btoa_def filter_id_conv)
  have k: "?k \<le> 2" by (rule pad_le)
  have lcore: "length ?core =
     4 * (length binary div 3) + (if length binary mod 3 = 0 then 0 else length binary mod 3 + 1)"
    by (simp add: length_sextets)
  have len: "length (?core @ replicate ?k (CHR ''='')) mod 4 = 0"
    unfolding length_append length_replicate lcore by (rule pad_len)
  have strip: "strip_padding (btoa binary) = ?core"
    unfolding btoa_def using strip_padding_btoa [OF _ len k] plain by blast
  have not1: "length ?core mod 4 \<noteq> 1"
    unfolding lcore by (rule core_len)
  have idx: "\<forall>c \<in> set ?core. b64_index c \<noteq> None"
    using sx b64_index_char by auto
  have dec: "map (\<lambda>c. the (b64_index c)) ?core = ?sx"
    using sx by (simp add: map_idI b64_index_char comp_def)
  have "b64_octets ?sx = ?bs" by (rule octets_sextets [OF bytes])
  then have rt: "map char_of (b64_octets ?sx) = binary"
    by (simp add: comp_def)
  show ?thesis
    unfolding atob_def filt strip Let_def using not1 idx dec rt by auto
qed

lemma base64_roundtrip: "base64ToUint8Array (uint8ArrayToBase64 bytes) = Inr bytes"
proof -
  have "unat b mod 256 = unat b" for b :: uint8
    using unsigned_less [of b, where ?'a = nat] by simp
  then show ?thesis
    by (simp add: base64ToUint8Array_def uint8ArrayToBase64_def atob_btoa comp_def map_idI)
qed

subsection \<open>PCM round trip\<close>

lemma bytes_int16_bytes: "bytes_int16 (ucast w) (ucast (drop_bit 8 w)) = w"
  unfolding bytes_int16_def
  by (rule bit_word_eqI) (auto simp add: bit_simps)

lemma Int16Array_of_buffer_view:
  "Int16Array_of_buffer (Uint8Array_of_Int16Array ws) = Inr ws"
  by (induction ws) (simp_all add: int16_bytes_def bytes_int16_bytes)

lemma sint_int16_of_int:
  assumes "- 32768 \<le> k" "k \<le> 32767"
  shows "sint (word_of_int k :: int16) = k"
  using assms by (simp add: sint_sbintrunc' signed_take_bit_int_eq_self)

lemma sint_sample_neg:
  assumes "clamp_sample x < 0"
  shows "sint (sample_to_int16 x) = \<lceil>clamp_sample x * 32768\<rceil>"
proof -
  have lo: "- 1 \<le> clamp_sample x" by (simp add: clamp_sample_def)
  have "- 32768 \<le> clamp_sample x * 32768" using lo by simp
  then have 1: "- 32768 \<le> \<lceil>clamp_sample x * 32768\<rceil>" by (simp add: le_ceiling_iff)
  have "clamp_sample x * 32768 \<le> 0" using assms by simp
  then have 2: "\<lceil>clamp_sample x * 32768\<rceil> \<le> 32767" by (simp add: ceiling_le_iff)
  have neg: "clamp_sample x * 32768 < 0" using assms by simp
  show ?thesis
    using assms neg sint_int16_of_int [OF 1 2]
    by (simp add: sample_to_int16_def ToInt16_def js_trunc_def)
qed

lemma sint_sample_nonneg:
  assumes "\<not> clamp_sample x < 0"
  shows "sint (sample_to_int16 x) = \<lfloor>clamp_sample x * 32767\<rfloor>"
proof -
  have hi: "clamp_sample x \<le> 1" by (simp add: clamp_sample_def)
  have nn: "0 \<le> clamp_sample x * 32767" using assms by simp
  then have 1: "- 32768 \<le> \<lfloor>clamp_sample x * 32767\<rfloor>" by (simp add: le_floor_iff)
  have "clamp_sample x * 32767 \<le> 32767" using hi by simp
  then have 2: "\<lfloor>clamp_sample x * 32767\<rfloor> \<le> 32767" by (simp add: floor_le_iff)
  show ?thesis
    using assms nn sint_int16_of_int [OF 1 2]
    by (simp add: sample_to_int16_def ToInt16_def js_trunc_def)
qed

text \<open>A negative sample comes back at most one step too high.\<close>

lemma roundtrip_neg:
  assumes "clamp_sample x < 0"
  shows "0 \<le> int16_to_float (sample_to_int16 x) - clamp_sample x"
    and "int16_to_float (sample_to_int16 x) - clamp_sample x < 1 / 32768"
proof -
  let ?s = "clamp_sample x"
  have c: "sint (sample_to_int16 x) = \<lceil>?s * 32768\<rceil>" by (rule sint_sample_neg [OF assms])
  have a: "?s * 32768 \<le> real_of_int \<lceil>?s * 32768\<rceil>" by (rule le_of_int_ceiling)
  have b: "real_of_int \<lceil>?s * 32768\<rceil> < ?s * 32768 + 1" by linarith
  show "0 \<le> int16_to_float (sample_to_int16 x) - ?s"
    using a by (simp add: int16_to_float_def c field_simps)
  show "int16_to_float (sample_to_int16 x) - ?s < 1 / 32768"
    using b by (simp add: int16_to_float_def c field_simps)
qed

text \<open>
  A sample that is not negative is scaled by \<open>32767\<close> and divided by \<open>32768\<close>: it comes
  back too low, by the truncation and by the difference of the two scales.
\<close>

lemma roundtrip_nonneg:
  assumes "\<not> clamp_sample x < 0"
  shows "0 \<le> clamp_sample x - int16_to_float (sample_to_int16 x)"
    and "clamp_sample x - int16_to_float (sample_to_int16 x) < 2 / 32768"
proof -
  let ?s = "clamp_sample x"
  have hi: "?s \<le> 1" by (simp add: clamp_sample_def)
  have c: "sint (sample_to_int16 x) = \<lfloor>?s * 32767\<rfloor>" by (rule sint_sample_nonneg [OF assms])
  have a: "real_of_int \<lfloor>?s * 32767\<rfloor> \<le> ?s * 32767" by (rule of_int_floor_le)
  have b: "?s * 32767 < real_of_int \<lfloor>?s * 32767\<rfloor> + 1" by linarith
  have "real_of_int \<lfloor>?s * 32767\<rfloor> \<le> ?s * 32768" using a assms by linarith
  then show "0 \<le> ?s - int16_to_float (sample_to_int16 x)"
    by (simp add: int16_to_float_def c field_simps)
  have "?s * 32768 < real_of_int \<lfloor>?s * 32767\<rfloor> + 2" using b hi by linarith
  then show "?s - int16_to_float (sample_to_int16 x) < 2 / 32768"
    by (simp add: int16_to_float_def c field_simps)
qed

lemma roundtrip_sample:
  "\<bar>int16_to_float (sample_to_int16 x) - clamp_sample x\<bar>
     < (if clamp_sample x < 0 then 1 else 2) / 32768"
proof (cases "clamp_sample x < 0")
  case True
  from roundtrip_neg [OF True] show ?thesis using True by simp
next
  case False
  from roundtrip_nonneg [OF False] show ?thesis using False by simp
qed

lemma decodeAudioData_createPcmBlob_bytes:
  "decodeAudioData (createPcmBlob_bytes samples) =
     createBuffer (map (\<lambda>x. int16_to_float (sample_to_int16 x)) samples) 24000"
  by (simp add: decodeAudioData_def createPcmBlob_bytes_def Int16Array_of_buffer_view comp_def)

text \<open>What is sent as text decodes as the PCM bytes it was made from.\<close>

lemma decoded_chunk_createPcmBlob:
  "decoded_chunk (blob_data (createPcmBlob samples)) = decodeAudioData (createPcmBlob_bytes samples)"
  by (simp add: decoded_chunk_def createPcmBlob_def base64_roundtrip)

text \<open>
  Claim C2, as the code has it. Encoding a non-empty sequence of floats with
  \<open>createPcmBlob\<close> and decoding the blob's text, or the PCM bytes behind it, never
  fails, whatever the range of the inputs, and gives a buffer of the same length at 24 kHz
  in which every sample is less than two quantization steps (\<open>2/32768\<close>) away from the
  clamped original, and less than one step away when the clamped original is negative.
  (The decoder's buffer constructor rejects an empty sequence.)
\<close>

theorem pcm_roundtrip_two_steps:
  assumes "samples \<noteq> []"
  shows "\<exists>buf. decoded_chunk (blob_data (createPcmBlob samples)) = Inr buf
           \<and> decodeAudioData (createPcmBlob_bytes samples) = Inr buf
           \<and> sampleRate buf = 24000
           \<and> list_all2 (\<lambda>y x. \<bar>y - clamp_sample x\<bar> < (if clamp_sample x < 0 then 1 else 2) / 32768)
                (channel buf) samples"
proof -
  let ?f = "\<lambda>x. int16_to_float (sample_to_int16 x)"
  let ?P = "\<lambda>y x. \<bar>y - clamp_sample x\<bar> < (if clamp_sample x < 0 then 1 else 2) / 32768"
  let ?buf = "\<lparr>channel = map ?f samples, sampleRate = 24000\<rparr>"
  have dec: "decodeAudioData (createPcmBlob_bytes samples) = Inr ?buf"
    using assms by (simp add: decodeAudioData_createPcmBlob_bytes createBuffer_def)
  have via: "decoded_chunk (blob_data (createPcmBlob samples)) = Inr ?buf"
    by (simp only: decoded_chunk_createPcmBlob dec)
  have "\<forall>x\<in>set samples. ?P (?f x) x"
    using roundtrip_sample by blast
  then have "list_all2 ?P (map ?f samples) samples"
    by (simp only: list_all2_map1 list_all2_same)
  then have "list_all2 ?P (channel ?buf) samples"
    by (simp only: AudioBuffer.select_convs)
  with dec via show ?thesis
    by (intro exI [of _ ?buf] conjI) simp_all
qed

text \<open>A negative sample, a sample just below one, and a sample out of range.\<close>

theorem pcm_roundtrip_two_steps_witness:
  "[- 1 / 3, 65535 / 65536, 5 :: real] \<noteq> []
   \<and> (\<exists>buf. decoded_chunk (blob_data (createPcmBlob [- 1 / 3, 65535 / 65536, 5])) = Inr buf
           \<and> decodeAudioData (createPcmBlob_bytes [- 1 / 3, 65535 / 65536, 5]) = Inr buf
           \<and> sampleRate buf = 24000
           \<and> list_all2 (\<lambda>y x. \<bar>y - clamp_sample x\<bar> < (if clamp_sample x < 0 then 1 else 2) / 32768)
                (channel buf) [- 1 / 3, 65535 / 65536, 5])"
proof -
  have h: "[- 1 / 3, 65535 / 65536, 5 :: real] \<noteq> []" by simp
  show ?thesis using h pcm_roundtrip_two_steps [OF h] by blast
qed

text \<open>
  The sample \<open>65535/65536\<close> is encoded as \<open>32766\<close> and decoded as \<open>16383/16384\<close>,
  one step and a half below it.
\<close>

theorem pcm_roundtrip_one_step_counterexample:
  "decoded_chunk (blob_data (createPcmBlob [65535 / 65536]))
     = Inr \<lparr>channel = [16383 / 16384], sampleRate = 24000\<rparr>
   \<and> clamp_sample (65535 / 65536) = 65535 / 65536
   \<and> \<not> \<bar>16383 / 16384 - clamp_sample (65535 / 65536)\<bar> \<le> 1 / 32768"
proof -
  have "decodeAudioData (createPcmBlob_bytes [65535 / 65536])
     = Inr \<lparr>channel = [16383 / 16384], sampleRate = 24000\<rparr>"
    by (simp add: decodeAudioData_def createPcmBlob_bytes_def sample_to_int16_def clamp_sample_def
      ToInt16_def js_trunc_def int16_bytes_def bytes_int16_def createBuffer_def int16_to_float_def)
  then have "decoded_chunk (blob_data (createPcmBlob [65535 / 65536]))
     = Inr \<lparr>channel = [16383 / 16384], sampleRate = 24000\<rparr>"
    by (simp only: decoded_chunk_createPcmBlob)
  moreover have "clamp_sample (65535 / 65536) = 65535 / 65536
      \<and> \<not> \<bar>16383 / 16384 - clamp_sample (65535 / 65536)\<bar> \<le> 1 / 32768"
    by (simp add: clamp_sample_def)
  ultimately show ?thesis by blast
qed

subsection \<open>Playback scheduling\<close>

lemma duration_nonneg: "0 \<le> duration b"
  by (simp add: duration_def)

lemma playAudio_cursor:
  "nextStartTimeRef (playAudio b now s) = max now (nextStartTimeRef s) + duration b"
  by (simp add: playAudio_def Let_def max_def)

lemma playAudio_started:
  "started_sources (playAudio b now s) =
     started_sources s @
       [\<lparr>node_id = next_id s, node_buffer = b, start_when = max now (nextStartTimeRef s)\<rparr>]"
  by (simp add: playAudio_def Let_def max_def)

lemma playAudio_sourcesRef:
  "sourcesRef (playAudio b now s) =
     sourcesRef s @
       [\<lparr>node_id = next_id s, node_buffer = b, start_when = max now (nextStartTimeRef s)\<rparr>]"
  by (simp add: playAudio_def Let_def max_def)

lemma play_all_Nil: "play_all [] s = s"
  by (simp add: play_all_def)

lemma play_all_append: "play_all (xs @ ys) s = play_all ys (play_all xs s)"
  by (simp add: play_all_def)

lemma play_all_snoc: "play_all (xs @ [x]) s = playAudio (fst x) (snd x) (play_all xs s)"
  by (simp add: play_all_def split: prod.splits)

lemma play_all_cursor_mono: "nextStartTimeRef s \<le> nextStartTimeRef (play_all chunks s)"
proof (induction chunks rule: rev_induct)
  case Nil
  show ?case by (simp add: play_all_Nil)
next
  case (snoc x xs)
  have "nextStartTimeRef (play_all xs s) \<le> nextStartTimeRef (play_all (xs @ [x]) s)"
    using duration_nonneg [of "fst x"] by (simp add: play_all_snoc playAudio_cursor)
  with snoc show ?case by linarith
qed

text \<open>The calls to \<open>source.start\<close> are only ever added to, one per chunk.\<close>

lemma play_all_started:
  "\<exists>new. started_sources (play_all chunks s) = started_sources s @ new
         \<and> length new = length chunks"
proof (induction chunks rule: rev_induct)
  case Nil
  show ?case by (simp add: play_all_Nil)
next
  case (snoc x xs)
  then obtain new where "started_sources (play_all xs s) = started_sources s @ new"
    and "length new = length xs" by blast
  then show ?case by (simp add: play_all_snoc playAudio_started)
qed

lemma play_all_started_length:
  "length (started_sources (play_all chunks s)) = length (started_sources s) + length chunks"
  using play_all_started [of chunks s] by auto

text \<open>
  The source started for chunk \<open>i\<close> is the one \<open>playAudio\<close> made in the state reached
  after the first \<open>i\<close> chunks; later chunks do not touch it.
\<close>

lemma play_all_started_nth:
  assumes "i < length chunks"
  shows "started_sources (play_all chunks s) ! (length (started_sources s) + i) =
     \<lparr>node_id = next_id (play_all (take i chunks) s),
      node_buffer = fst (chunks ! i),
      start_when = max (snd (chunks ! i)) (nextStartTimeRef (play_all (take i chunks) s))\<rparr>"
proof -
  let ?pre = "play_all (take i chunks) s"
  let ?mid = "play_all (take (Suc i) chunks) s"
  have "play_all chunks s = play_all (drop (Suc i) chunks) ?mid"
    using play_all_append [of "take (Suc i) chunks" "drop (Suc i) chunks" s] by simp
  then obtain new where all: "started_sources (play_all chunks s) = started_sources ?mid @ new"
    using play_all_started [of "drop (Suc i) chunks" ?mid] by auto
  have mid: "?mid = playAudio (fst (chunks ! i)) (snd (chunks ! i)) ?pre"
    using assms by (simp add: take_Suc_conv_app_nth play_all_snoc)
  have len: "length (started_sources ?pre) = length (started_sources s) + i"
    using assms by (simp add: play_all_started_length)
  show ?thesis
    using len by (simp add: all mid playAudio_started nth_append)
qed

text \<open>No other handler writes the cursor, and a message can only move it forward.\<close>

lemma cursor_setTranscript: "nextStartTimeRef (setTranscript t s) = nextStartTimeRef s"
  by (simp add: setTranscript_def split: option.splits)

lemma cursor_handleServerMessage:
  assumes "handleServerMessage msg now s = Inr s'"
  shows "nextStartTimeRef s \<le> nextStartTimeRef s'"
proof -
  have "nextStartTimeRef s \<le> nextStartTimeRef (playAudio b now s)" for b
    using duration_nonneg [of b] by (simp add: playAudio_cursor)
  then show ?thesis
    using assms
    by (auto simp add: handleServerMessage_def cursor_setTranscript split: if_splits sum.splits)
qed

lemma cursor_onmessage: "nextStartTimeRef s \<le> nextStartTimeRef (onmessage msg now s)"
  by (simp add: onmessage_def cursor_handleServerMessage split: sum.splits)

lemma cursor_stopSession: "nextStartTimeRef (stopSession s) = nextStartTimeRef s"
  by (simp add: stopSession_def)

lemma cursor_startSession: "nextStartTimeRef (startSession mode gum tick s) = nextStartTimeRef s"
  by (simp add: startSession_def renderVisualizer_def Let_def split: sum.splits)

lemma cursor_step: "nextStartTimeRef s \<le> nextStartTimeRef (step ev s)"
proof (cases ev)
  case (OnMessage msg now)
  then show ?thesis by (simp add: cursor_onmessage)
qed (simp_all add: props_changed_def effect_body_def cursor_startSession cursor_stopSession
      toggle_mute_def onaudioprocess_def onopen_def onclose_def onerror_def renderVisualizer_def
      onended_def transcript_timeout_def cursor_setTranscript Let_def split: option.splits)

lemma cursor_run: "nextStartTimeRef s \<le> nextStartTimeRef (run evs s)"
proof (induction evs arbitrary: s)
  case Nil
  show ?case by (simp add: run_def)
next
  case (Cons ev evs)
  have "nextStartTimeRef s \<le> nextStartTimeRef (step ev s)" by (rule cursor_step)
  also have "\<dots> \<le> nextStartTimeRef (run evs (step ev s))" by (rule Cons.IH)
  finally show ?case by (simp add: run_def)
qed

text \<open>
  Claim C1. For every sequence of audio chunks, played in order from any state, each with
  the context time \<open>now\<close> of its arrival: the buffer of chunk \<open>i\<close> is started at
  \<open>max(now, PlaybackCursor)\<close>, for the cursor as it was before that chunk; the cursor
  after the chunk is that start plus the buffer's duration; so the cursor never decreases,
  from chunk to chunk and over the whole sequence, and the next buffer starts no earlier
  than this one's start plus its duration. No other event of a run moves the cursor
  backward either.
\<close>

theorem playback_gapless:
  "nextStartTimeRef s \<le> nextStartTimeRef (play_all chunks s)
   \<and> nextStartTimeRef s \<le> nextStartTimeRef (run evs s)
   \<and> length (started_sources (play_all chunks s)) = length (started_sources s) + length chunks
   \<and> (\<forall>i < length chunks.
        let before = play_all (take i chunks) s;
            after = play_all (take (Suc i) chunks) s;
            node = started_sources (play_all chunks s) ! (length (started_sources s) + i)
        in node_buffer node = fst (chunks ! i)
           \<and> start_when node = max (snd (chunks ! i)) (nextStartTimeRef before)
           \<and> nextStartTimeRef after = start_when node + duration (node_buffer node)
           \<and> nextStartTimeRef before \<le> nextStartTimeRef after
           \<and> (Suc i < length chunks \<longrightarrow>
                start_when node + duration (node_buffer node)
                  \<le> start_when (started_sources (play_all chunks s)
                                   ! (length (started_sources s) + Suc i))))"
proof (intro conjI allI impI)
  show "nextStartTimeRef s \<le> nextStartTimeRef (play_all chunks s)"
    by (rule play_all_cursor_mono)
  show "nextStartTimeRef s \<le> nextStartTimeRef (run evs s)"
    by (rule cursor_run)
  show "length (started_sources (play_all chunks s)) = length (started_sources s) + length chunks"
    by (rule play_all_started_length)
next
  fix i assume i: "i < length chunks"
  let ?before = "play_all (take i chunks) s"
  let ?after = "play_all (take (Suc i) chunks) s"
  let ?node = "started_sources (play_all chunks s) ! (length (started_sources s) + i)"
  have node: "?node = \<lparr>node_id = next_id ?before, node_buffer = fst (chunks ! i),
      start_when = max (snd (chunks ! i)) (nextStartTimeRef ?before)\<rparr>"
    by (rule play_all_started_nth [OF i])
  have after: "?after = playAudio (fst (chunks ! i)) (snd (chunks ! i)) ?before"
    using i by (simp add: take_Suc_conv_app_nth play_all_snoc)
  have cur: "nextStartTimeRef ?after = start_when ?node + duration (node_buffer ?node)"
    by (simp add: node after playAudio_cursor)
  have mono: "nextStartTimeRef ?before \<le> nextStartTimeRef ?after"
    using duration_nonneg [of "fst (chunks ! i)"] by (simp add: after playAudio_cursor)
  have nxt: "start_when ?node + duration (node_buffer ?node)
                  \<le> start_when (started_sources (play_all chunks s)
                                   ! (length (started_sources s) + Suc i))"
    if "Suc i < length chunks"
  proof -
    have "start_when (started_sources (play_all chunks s) ! (length (started_sources s) + Suc i))
          = max (snd (chunks ! Suc i)) (nextStartTimeRef ?after)"
      using play_all_started_nth [OF that, of s]
      by (simp only: AudioBufferSourceNode.select_convs)
    then show ?thesis using cur by simp
  qed
  show "let before = ?before; after = ?after; node = ?node
        in node_buffer node = fst (chunks ! i)
           \<and> start_when node = max (snd (chunks ! i)) (nextStartTimeRef before)
           \<and> nextStartTimeRef after = start_when node + duration (node_buffer node)
           \<and> nextStartTimeRef before \<le> nextStartTimeRef after
           \<and> (Suc i < length chunks \<longrightarrow>
                start_when node + duration (node_buffer node)
                  \<le> start_when (started_sources (play_all chunks s)
                                   ! (length (started_sources s) + Suc i)))"
    unfolding Let_def using node cur mono nxt by simp
qed

text \<open>
  The burst and the late chunk, from the mounted component: chunk 1 arrives with chunk 0
  and starts where chunk 0 ends; chunk 2 arrives late and starts on arrival.
\<close>

theorem playback_gapless_witness:
  "(1::nat) < length burst_then_late
   \<and> Suc 1 < length burst_then_late
   \<and> start_when (started_sources (play_all burst_then_late mounted)
                   ! (length (started_sources mounted) + 1))
       = max (snd (burst_then_late ! 1))
             (nextStartTimeRef (play_all (take 1 burst_then_late) mounted))
   \<and> start_when (started_sources (play_all burst_then_late mounted)
                   ! (length (started_sources mounted) + 1))
       + duration (node_buffer (started_sources (play_all burst_then_late mounted)
                   ! (length (started_sources mounted) + 1)))
       \<le> start_when (started_sources (play_all burst_then_late mounted)
                       ! (length (started_sources mounted) + Suc 1))
   \<and> map start_when (started_sources (play_all burst_then_late mounted))
       = [1, 1 + 1 / 12000, 5]
   \<and> nextStartTimeRef (play_all burst_then_late mounted) = 5 + 1 / 24000"
proof -
  have l1: "(1::nat) < length burst_then_late" and l2: "Suc 1 < length burst_then_late"
    by (simp_all add: burst_then_late_def)
  have "\<forall>i < length burst_then_late.
        let before = play_all (take i burst_then_late) mounted;
            after = play_all (take (Suc i) burst_then_late) mounted;
            node = started_sources (play_all burst_then_late mounted)
                     ! (length (started_sources mounted) + i)
        in node_buffer node = fst (burst_then_late ! i)
           \<and> start_when node = max (snd (burst_then_late ! i)) (nextStartTimeRef before)
           \<and> nextStartTimeRef after = start_when node + duration (node_buffer node)
           \<and> nextStartTimeRef before \<le> nextStartTimeRef after
           \<and> (Suc i < length burst_then_late \<longrightarrow>
                start_when node + duration (node_buffer node)
                  \<le> start_when (started_sources (play_all burst_then_late mounted)
                                   ! (length (started_sources mounted) + Suc i)))"
    using playback_gapless [of mounted burst_then_late "[]"] by blast
  from this [rule_format, OF l1] l2
  have inst: "start_when (started_sources (play_all burst_then_late mounted)
                   ! (length (started_sources mounted) + 1))
       = max (snd (burst_then_late ! 1))
             (nextStartTimeRef (play_all (take 1 burst_then_late) mounted))
   \<and> start_when (started_sources (play_all burst_then_late mounted)
                   ! (length (started_sources mounted) + 1))
       + duration (node_buffer (started_sources (play_all burst_then_late mounted)
                   ! (length (started_sources mounted) + 1)))
       \<le> start_when (started_sources (play_all burst_then_late mounted)
                       ! (length (started_sources mounted) + Suc 1))"
    unfolding Let_def by blast
  have vals: "map start_when (started_sources (play_all burst_then_late mounted))
       = [1, 1 + 1 / 12000, 5]
   \<and> nextStartTimeRef (play_all burst_then_late mounted) = 5 + 1 / 24000"
    by (simp add: burst_then_late_def play_all_def playAudio_def mounted_def duration_def Let_def)
  from l1 l2 inst vals show ?thesis by blast
qed

subsection \<open>The message handler\<close>

lemma unfold_active_session:
  "active_session =
     \<lparr>status = Connecting, isMuted = False, voiceState = Listening, transcript = None,
      audioContextRef = Some 1, inputNodeRef = Some \<lparr>closure_isMuted = False\<rparr>,
      streamRef = Some 3, nextStartTimeRef = 0, sourcesRef = [], sessionRef = Some 7,
      animationFrameRef = 6, inputAnalyserRef = Some 5, outputAnalyserRef = Some 2,
      transcriptTimeoutRef = None, live_streams = [3], open_contexts = [1, 4],
      open_connections = [(7, Collaborative)], sent_inputs = [], started_sources = [],
      pending_frame = Some 6, pending_timeout = None,
      canvas_frame = Some (True, replicate 256 8), console = [],
      unhandled_rejections = [], next_id = 8\<rparr>"
  by (simp add: active_session_def props_changed_def effect_body_def startSession_def
      stopSession_def renderVisualizer_def mounted_def sample_tick_def Let_def
      getByteFrequencyData_def mean_energy_def sum_list_replicate activity_state_def)

lemma decoded_chunk_two_frames:
  "decoded_chunk ''AAABAA=='' = Inr \<lparr>channel = [0, 1 / 32768], sampleRate = 24000\<rparr>"
  by (simp add: decoded_chunk_def base64ToUint8Array_def atob_def strip_padding_def
      ascii_whitespace_def b64_index_def decodeAudioData_def bytes_int16_def createBuffer_def
      int16_to_float_def)

lemma decoded_chunk_odd: "decoded_chunk ''AA=='' = Inl RangeError"
  by (simp add: decoded_chunk_def base64ToUint8Array_def atob_def strip_padding_def
      ascii_whitespace_def b64_index_def decodeAudioData_def)

lemma two_frames_decodes:
  "truthy (inlineData two_frames)"
  "decoded_chunk (the (inlineData two_frames))
     = Inr \<lparr>channel = [0, 1 / 32768], sampleRate = 24000\<rparr>"
  by (simp_all add: two_frames_def decoded_chunk_two_frames)

lemma odd_payload_fails:
  "truthy (inlineData odd_payload)"
  "decoded_chunk (the (inlineData odd_payload)) = Inl RangeError"
  by (simp_all add: odd_payload_def decoded_chunk_odd)

text \<open>A payload that does not decode rejects the handler before anything is applied.\<close>

lemma handleServerMessage_failure:
  assumes "truthy (inlineData msg)" and "decoded_chunk (the (inlineData msg)) = Inl e"
  shows "handleServerMessage msg now s = Inl e"
  using assms by (auto simp add: handleServerMessage_def decoded_chunk_def split: sum.splits)

lemma handleServerMessage_Inr_onmessage:
  assumes "handleServerMessage msg now s = Inr s'"
  shows "onmessage msg now s = s'"
  using assms by (simp add: onmessage_def)

text \<open>A payload that decodes is played, in whatever state the handler runs.\<close>

lemma handleServerMessage_success:
  assumes "truthy (inlineData msg)" and "decoded_chunk (the (inlineData msg)) = Inr buf"
  shows "\<exists>s'. handleServerMessage msg now s = Inr s'
           \<and> nextStartTimeRef s' = nextStartTimeRef (playAudio buf now s)
           \<and> started_sources s' = started_sources (playAudio buf now s)
           \<and> sourcesRef s' = sourcesRef (playAudio buf now s)"
  using assms
  by (auto simp add: handleServerMessage_def decoded_chunk_def setTranscript_def
      split: sum.splits option.splits)

lemma onmessage_schedules:
  assumes "truthy (inlineData msg)" and "decoded_chunk (the (inlineData msg)) = Inr buf"
  shows "nextStartTimeRef (onmessage msg now s) = max now (nextStartTimeRef s) + duration buf"
    and "started_sources (onmessage msg now s)
           = started_sources s @
               [\<lparr>node_id = next_id s, node_buffer = buf,
                 start_when = max now (nextStartTimeRef s)\<rparr>]"
    and "sourcesRef (onmessage msg now s)
           = sourcesRef s @
               [\<lparr>node_id = next_id s, node_buffer = buf,
                 start_when = max now (nextStartTimeRef s)\<rparr>]"
proof -
  obtain s' where h: "handleServerMessage msg now s = Inr s'"
    and c: "nextStartTimeRef s' = nextStartTimeRef (playAudio buf now s)"
    and t: "started_sources s' = started_sources (playAudio buf now s)"
    and r: "sourcesRef s' = sourcesRef (playAudio buf now s)"
    using handleServerMessage_success [OF assms, of now s] by blast
  have o: "onmessage msg now s = s'"
    by (rule handleServerMessage_Inr_onmessage [OF h])
  show "nextStartTimeRef (onmessage msg now s) = max now (nextStartTimeRef s) + duration buf"
    unfolding o c by (rule playAudio_cursor)
  show "started_sources (onmessage msg now s)
           = started_sources s @
               [\<lparr>node_id = next_id s, node_buffer = buf,
                 start_when = max now (nextStartTimeRef s)\<rparr>]"
    unfolding o t by (rule playAudio_started)
  show "sourcesRef (onmessage msg now s)
           = sourcesRef s @
               [\<lparr>node_id = next_id s, node_buffer = buf,
                 start_when = max now (nextStartTimeRef s)\<rparr>]"
    unfolding o r by (rule playAudio_sourcesRef)
qed

lemma handleServerMessage_text_only:
  assumes "\<not> truthy (inlineData msg)"
  shows "\<exists>s'. handleServerMessage msg now s = Inr s'"
  using assms by (simp add: handleServerMessage_def)

lemma stopSession_playback:
  "nextStartTimeRef (stopSession s) = nextStartTimeRef s"
  "sourcesRef (stopSession s) = sourcesRef s"
  "started_sources (stopSession s) = started_sources s"
  "next_id (stopSession s) = next_id s"
  "open_connections (stopSession s) = open_connections s"
  by (simp_all add: stopSession_def)

lemma startSession_playback:
  "nextStartTimeRef (startSession mode gum tick s) = nextStartTimeRef s"
  "sourcesRef (startSession mode gum tick s) = sourcesRef s"
  by (simp_all add: startSession_def renderVisualizer_def Let_def split: sum.splits)

lemma onmessage_two_frames_active:
  "nextStartTimeRef (onmessage two_frames 1 active_session) = 12001 / 12000"
  "sourcesRef (onmessage two_frames 1 active_session)
     = [\<lparr>node_id = 8, node_buffer = \<lparr>channel = [0, 1 / 32768], sampleRate = 24000\<rparr>,
         start_when = 1\<rparr>]"
  by (simp_all add: onmessage_schedules [OF two_frames_decodes] unfold_active_session
      duration_def)

text \<open>
  Claim C8, as the code has it. When the audio payload of a message does not decode
  (\<open>atob\<close> or the \<open>Int16Array\<close> or buffer constructor throws), \<open>handleServerMessage\<close>
  rejects with that exception and \<open>onmessage\<close> leaves the component as it was: the chunk
  is not scheduled, the status is unchanged and the session goes on. Nothing in the
  component catches or logs the failure: the rejection is left unhandled, and a
  transcription carried by the same message is not applied.
\<close>

theorem decode_failure_rejects:
  assumes "truthy (inlineData msg)" and "decoded_chunk (the (inlineData msg)) = Inl e"
  shows "handleServerMessage msg now s = Inl e
       \<and> onmessage msg now s = s\<lparr>unhandled_rejections := unhandled_rejections s @ [e]\<rparr>"
  using handleServerMessage_failure [OF assms] by (simp add: onmessage_def)

theorem decode_failure_rejects_witness:
  "truthy (inlineData odd_payload)
   \<and> decoded_chunk (the (inlineData odd_payload)) = Inl RangeError
   \<and> handleServerMessage odd_payload 1 active_session = Inl RangeError
   \<and> onmessage odd_payload 1 active_session
       = active_session\<lparr>unhandled_rejections := unhandled_rejections active_session @ [RangeError]\<rparr>"
  using odd_payload_fails decode_failure_rejects [OF odd_payload_fails, of 1 active_session]
  by simp

text \<open>
  A payload of one byte in the running session: the decode fails, the rejection is
  unhandled, the component writes no line to the console, and the transcription that came
  with the payload is lost.
\<close>

theorem decode_failure_counterexample:
  "decoded_chunk (the (inlineData odd_payload)) = Inl RangeError
   \<and> unhandled_rejections (onmessage odd_payload 1 active_session) = [RangeError]
   \<and> console (onmessage odd_payload 1 active_session) = console active_session
   \<and> outputTranscription odd_payload = Some ''Hello''
   \<and> transcript (onmessage odd_payload 1 active_session) = None"
proof -
  have "handleServerMessage odd_payload 1 active_session = Inl RangeError"
    by (rule handleServerMessage_failure [OF odd_payload_fails])
  then have "onmessage odd_payload 1 active_session
      = active_session\<lparr>unhandled_rejections := unhandled_rejections active_session @ [RangeError]\<rparr>"
    by (simp add: onmessage_def)
  then show ?thesis
    using odd_payload_fails(2) by (simp add: unfold_active_session odd_payload_def)
qed

text \<open>
  Claim C3, as the code has it. \<open>handleServerMessage\<close> tests no session guard. After
  \<open>stopSession\<close>, which drops the session reference and leaves the PlaybackCursor as it
  was, a delivered message whose audio decodes is handled as during the session: its
  buffer is started at \<open>max(now, PlaybackCursor)\<close> and the cursor is advanced by the
  buffer's duration.
\<close>

theorem post_stop_message_is_scheduled:
  assumes "truthy (inlineData msg)" and "decoded_chunk (the (inlineData msg)) = Inr buf"
  shows "sessionRef (stopSession s) = None
       \<and> nextStartTimeRef (stopSession s) = nextStartTimeRef s
       \<and> nextStartTimeRef (onmessage msg now (stopSession s))
           = max now (nextStartTimeRef s) + duration buf
       \<and> started_sources (onmessage msg now (stopSession s))
           = started_sources s @
               [\<lparr>node_id = next_id s, node_buffer = buf,
                 start_when = max now (nextStartTimeRef s)\<rparr>]"
proof -
  have "sessionRef (stopSession s) = None" by (simp add: stopSession_def)
  then show ?thesis
    by (simp add: onmessage_schedules [OF assms] stopSession_playback)
qed

theorem post_stop_message_is_scheduled_witness:
  "truthy (inlineData two_frames)
   \<and> decoded_chunk (the (inlineData two_frames))
       = Inr \<lparr>channel = [0, 1 / 32768], sampleRate = 24000\<rparr>
   \<and> sessionRef (stopSession active_session) = None
   \<and> nextStartTimeRef (stopSession active_session) = nextStartTimeRef active_session
   \<and> nextStartTimeRef (onmessage two_frames 1 (stopSession active_session))
       = max 1 (nextStartTimeRef active_session)
         + duration \<lparr>channel = [0, 1 / 32768], sampleRate = 24000\<rparr>
   \<and> started_sources (onmessage two_frames 1 (stopSession active_session))
       = started_sources active_session @
           [\<lparr>node_id = next_id active_session,
             node_buffer = \<lparr>channel = [0, 1 / 32768], sampleRate = 24000\<rparr>,
             start_when = max 1 (nextStartTimeRef active_session)\<rparr>]"
  using two_frames_decodes
    post_stop_message_is_scheduled [OF two_frames_decodes, of active_session 1]
  by simp

text \<open>
  The session is closed (\<open>active\<close> becomes false) and a message with two frames of audio
  is delivered at context time 1: a source is started and the cursor moves from \<open>0\<close> to
  \<open>1 + 2/24000\<close>.
\<close>

theorem post_stop_message_counterexample:
  "sessionRef (step (PropsChanged False Collaborative (Inr ()) sample_tick) active_session) = None
   \<and> nextStartTimeRef (step (PropsChanged False Collaborative (Inr ()) sample_tick) active_session) = 0
   \<and> started_sources (step (PropsChanged False Collaborative (Inr ()) sample_tick) active_session) = []
   \<and> nextStartTimeRef
        (run [PropsChanged False Collaborative (Inr ()) sample_tick, OnMessage two_frames 1]
           active_session) = 12001 / 12000
   \<and> started_sources
        (run [PropsChanged False Collaborative (Inr ()) sample_tick, OnMessage two_frames 1]
           active_session)
       = [\<lparr>node_id = 8, node_buffer = \<lparr>channel = [0, 1 / 32768], sampleRate = 24000\<rparr>,
           start_when = 1\<rparr>]"
proof -
  let ?stopped = "stopSession (stopSession active_session)"
  have st: "step (PropsChanged False Collaborative (Inr ()) sample_tick) active_session = ?stopped"
    by (simp add: props_changed_def effect_body_def)
  have r: "run [PropsChanged False Collaborative (Inr ()) sample_tick, OnMessage two_frames 1]
           active_session = onmessage two_frames 1 ?stopped"
    by (simp add: run_def props_changed_def effect_body_def)
  have f: "nextStartTimeRef active_session = 0" "started_sources active_session = []"
    "next_id active_session = 8"
    by (simp_all add: unfold_active_session)
  have n: "sessionRef ?stopped = None" by (simp add: stopSession_def)
  show ?thesis
    unfolding st r using n
    by (simp add: onmessage_schedules [OF two_frames_decodes] stopSession_playback f duration_def)
qed

text \<open>
  Claim C4, as the code has it. \<open>stopSession\<close> closes the playback context and clears
  \<open>audioContextRef\<close>; it stops no source, leaves the ActiveSourceSet as it was and leaves
  the PlaybackCursor as it was, and so does the restart that follows: the next session
  begins with the cursor and the set of the previous one.
\<close>

theorem stopSession_keeps_cursor_and_sources:
  "sourcesRef (stopSession s) = sourcesRef s
   \<and> nextStartTimeRef (stopSession s) = nextStartTimeRef s
   \<and> audioContextRef (stopSession s) = None
   \<and> set (open_contexts (stopSession s)) = set (open_contexts s) - set_option (audioContextRef s)
   \<and> sourcesRef (props_changed True mode gum tick s) = sourcesRef s
   \<and> nextStartTimeRef (props_changed True mode gum tick s) = nextStartTimeRef s"
  by (auto simp add: stopSession_playback startSession_playback props_changed_def effect_body_def
      stopSession_def split: option.splits)

theorem stopSession_keeps_cursor_and_sources_witness:
  "sourcesRef (stopSession (onmessage two_frames 1 active_session))
     = sourcesRef (onmessage two_frames 1 active_session)
   \<and> nextStartTimeRef (stopSession (onmessage two_frames 1 active_session))
     = nextStartTimeRef (onmessage two_frames 1 active_session)
   \<and> audioContextRef (stopSession (onmessage two_frames 1 active_session)) = None"
  using stopSession_keeps_cursor_and_sources [of "onmessage two_frames 1 active_session"]
  by simp

text \<open>
  One chunk is played in the running session and the session is stopped: the source is
  still in the set and the cursor still at \<open>1 + 2/24000\<close>, also after the next start.
\<close>

theorem stopSession_reset_counterexample:
  "nextStartTimeRef (stopSession (onmessage two_frames 1 active_session)) = 12001 / 12000
   \<and> sourcesRef (stopSession (onmessage two_frames 1 active_session))
       = [\<lparr>node_id = 8, node_buffer = \<lparr>channel = [0, 1 / 32768], sampleRate = 24000\<rparr>,
           start_when = 1\<rparr>]
   \<and> nextStartTimeRef
        (run [OnMessage two_frames 1,
              PropsChanged False Collaborative (Inr ()) sample_tick,
              PropsChanged True Collaborative (Inr ()) sample_tick] active_session)
       = 12001 / 12000"
  by (simp add: run_def props_changed_def effect_body_def stopSession_playback
      startSession_playback onmessage_two_frames_active)

subsection \<open>Activity state\<close>

lemma activity_state_cases:
  "(activity_state outEnergy inEnergy = Speaking) = js_gt outEnergy 10"
  "(activity_state outEnergy inEnergy = Listening) = (\<not> js_gt outEnergy 10 \<and> js_gt inEnergy 10)"
  "(activity_state outEnergy inEnergy = Idle) = (\<not> js_gt outEnergy 10 \<and> \<not> js_gt inEnergy 10)"
  by (simp_all add: activity_state_def)

lemma renderVisualizer_voiceState:
  "canvas2d tick \<Longrightarrow>
   voiceState (renderVisualizer tick s) =
     activity_state
       (mean_energy (getByteFrequencyData (outputAnalyserRef s) (outFreq tick)))
       (mean_energy (getByteFrequencyData (inputAnalyserRef s) (inFreq tick)))"
  by (simp add: renderVisualizer_def Let_def)

lemma renderVisualizer_canvas_frame:
  "canvas2d tick \<Longrightarrow>
   canvas_frame (renderVisualizer tick s) =
     Some (js_gt (mean_energy (getByteFrequencyData (outputAnalyserRef s) (outFreq tick))) 5,
           if js_gt (mean_energy (getByteFrequencyData (outputAnalyserRef s) (outFreq tick))) 5
           then getByteFrequencyData (outputAnalyserRef s) (outFreq tick)
           else getByteFrequencyData (inputAnalyserRef s) (inFreq tick))"
  by (simp add: renderVisualizer_def Let_def)

lemma mean_energy_replicate:
  "0 < n \<Longrightarrow> mean_energy (replicate n b) = Num (real (unat b))"
  by (simp add: mean_energy_def sum_list_replicate)

text \<open>
  Claim C5. On a visualization tick that draws, the voice state set from the two mean
  energies is Speaking exactly when the output mean is above 10, otherwise Listening
  exactly when the input mean is above 10, otherwise Idle: the output test comes first
  (an output mean of 8 with an input mean of 20 gives Listening). Whether the output is
  dominant (output mean above 5) decides the dataset that is drawn and nothing in the
  voice state.
\<close>

theorem activity_state_thresholds:
  assumes "canvas2d tick"
  shows "voiceState (renderVisualizer tick s) =
           (if js_gt (mean_energy (getByteFrequencyData (outputAnalyserRef s) (outFreq tick))) 10
            then Speaking
            else if js_gt (mean_energy (getByteFrequencyData (inputAnalyserRef s) (inFreq tick))) 10
            then Listening
            else Idle)
       \<and> canvas_frame (renderVisualizer tick s) =
           Some (js_gt (mean_energy (getByteFrequencyData (outputAnalyserRef s) (outFreq tick))) 5,
             if js_gt (mean_energy (getByteFrequencyData (outputAnalyserRef s) (outFreq tick))) 5
             then getByteFrequencyData (outputAnalyserRef s) (outFreq tick)
             else getByteFrequencyData (inputAnalyserRef s) (inFreq tick))
       \<and> (activity_state outEnergy inEnergy = Speaking) = js_gt outEnergy 10
       \<and> (activity_state outEnergy inEnergy = Listening)
           = (\<not> js_gt outEnergy 10 \<and> js_gt inEnergy 10)
       \<and> (activity_state outEnergy inEnergy = Idle)
           = (\<not> js_gt outEnergy 10 \<and> \<not> js_gt inEnergy 10)
       \<and> activity_state (Num 8) (Num 20) = Listening"
proof -
  have v: "voiceState (renderVisualizer tick s) =
           (if js_gt (mean_energy (getByteFrequencyData (outputAnalyserRef s) (outFreq tick))) 10
            then Speaking
            else if js_gt (mean_energy (getByteFrequencyData (inputAnalyserRef s) (inFreq tick))) 10
            then Listening
            else Idle)"
    using assms by (simp add: renderVisualizer_voiceState activity_state_def)
  have e: "activity_state (Num 8) (Num 20) = Listening"
    by (simp add: activity_state_def)
  show ?thesis
    using v e renderVisualizer_canvas_frame [OF assms, of s]
      activity_state_cases [of outEnergy inEnergy]
    by blast
qed

text \<open>
  The sample tick in the running session: output mean 8, input mean 20. The state is
  Listening although the output dataset is the dominant one and is the one drawn.
\<close>

theorem activity_state_thresholds_witness:
  "canvas2d sample_tick
   \<and> mean_energy (getByteFrequencyData (outputAnalyserRef active_session) (outFreq sample_tick))
       = Num 8
   \<and> mean_energy (getByteFrequencyData (inputAnalyserRef active_session) (inFreq sample_tick))
       = Num 20
   \<and> voiceState (renderVisualizer sample_tick active_session) = Listening
   \<and> canvas_frame (renderVisualizer sample_tick active_session) = Some (True, replicate 256 8)"
proof -
  have a: "canvas2d sample_tick" by (simp add: sample_tick_def)
  have o: "outputAnalyserRef active_session = Some 2"
    and i: "inputAnalyserRef active_session = Some 5"
    by (simp_all add: unfold_active_session)
  have b: "mean_energy (getByteFrequencyData (outputAnalyserRef active_session) (outFreq sample_tick))
       = Num 8"
    by (simp add: o sample_tick_def mean_energy_replicate getByteFrequencyData_def)
  have c: "mean_energy (getByteFrequencyData (inputAnalyserRef active_session) (inFreq sample_tick))
       = Num 20"
    by (simp add: i sample_tick_def mean_energy_replicate getByteFrequencyData_def)
  have d: "getByteFrequencyData (outputAnalyserRef active_session) (outFreq sample_tick)
       = replicate 256 8"
    by (simp add: o sample_tick_def getByteFrequencyData_def)
  from activity_state_thresholds
         [OF a, where s = active_session and outEnergy = "Num 8" and inEnergy = "Num 20"]
  have "voiceState (renderVisualizer sample_tick active_session) = Listening
     \<and> canvas_frame (renderVisualizer sample_tick active_session) = Some (True, replicate 256 8)"
    unfolding b c d by (simp add: mean_energy_replicate)
  with a b c show ?thesis by simp
qed

subsection \<open>Mute and capture\<close>

lemma createPcmBlob_half:
  "createPcmBlob [1 / 2] = \<lparr>blob_data = ''/z8='', mimeType = ''audio/pcm;rate=16000''\<rparr>"
  by (simp add: createPcmBlob_def createPcmBlob_bytes_def sample_to_int16_def clamp_sample_def
      ToInt16_def js_trunc_def int16_bytes_def uint8ArrayToBase64_def btoa_def b64_char_def
      char_of_def bit_Suc_0_iff)

text \<open>
  What the capture handler sends does not depend on the mute flag of the component, only
  on the flag its closure took when the session was started.
\<close>

lemma onaudioprocess_ignores_isMuted:
  "sent_inputs (onaudioprocess inputData (toggle_mute s)) = sent_inputs (onaudioprocess inputData s)"
  by (simp add: onaudioprocess_def toggle_mute_def split: option.splits)

lemma onaudioprocess_closure_muted:
  assumes "inputNodeRef s = Some node" and "closure_isMuted node"
  shows "onaudioprocess inputData s = s"
  using assms by (simp add: onaudioprocess_def)

text \<open>
  Claim C6 (while the session is muted, frames are still captured and analysed, and no
  frame produced while muted is forwarded to the transport), on a run of the code. The
  session is started unmuted, the user mutes, and a frame of one sample is captured: the
  component is muted, nothing had been sent before, and the frame is sent to the session
  all the same, because the handler tests the flag of its closure.
\<close>

theorem muted_frame_is_forwarded:
  "isMuted (run [ToggleMute] active_session)
   \<and> sent_inputs (run [ToggleMute] active_session) = []
   \<and> sent_inputs (run [ToggleMute, AudioProcess [1 / 2]] active_session)
       = [(7, \<lparr>blob_data = ''/z8='', mimeType = ''audio/pcm;rate=16000''\<rparr>)]"
  by (simp add: run_def toggle_mute_def onaudioprocess_def unfold_active_session
      createPcmBlob_half)

lemma isMuted_setTranscript: "isMuted (setTranscript t s) = isMuted s"
  by (simp add: setTranscript_def split: option.splits)

lemma isMuted_playAudio: "isMuted (playAudio b now s) = isMuted s"
  by (simp add: playAudio_def Let_def)

lemma isMuted_handleServerMessage:
  "handleServerMessage msg now s = Inr s' \<Longrightarrow> isMuted s' = isMuted s"
  by (auto simp add: handleServerMessage_def isMuted_setTranscript isMuted_playAudio
      split: if_splits sum.splits)

lemma isMuted_onmessage: "isMuted (onmessage msg now s) = isMuted s"
  by (simp add: onmessage_def isMuted_handleServerMessage split: sum.splits)

lemma isMuted_renderVisualizer: "isMuted (renderVisualizer tick s) = isMuted s"
  by (simp add: renderVisualizer_def Let_def)

lemma isMuted_stopSession: "isMuted (stopSession s) = isMuted s"
  by (simp add: stopSession_def)

lemma isMuted_startSession: "isMuted (startSession mode gum tick s) = isMuted s"
  by (simp add: startSession_def Let_def isMuted_renderVisualizer split: sum.splits)

lemma isMuted_props_changed: "isMuted (props_changed active mode gum tick s) = isMuted s"
  by (simp add: props_changed_def effect_body_def isMuted_startSession isMuted_stopSession)

lemma isMuted_onaudioprocess: "isMuted (onaudioprocess inputData s) = isMuted s"
  by (simp add: onaudioprocess_def split: option.splits)

lemma isMuted_transcript_timeout: "isMuted (transcript_timeout s) = isMuted s"
  by (simp add: transcript_timeout_def isMuted_setTranscript split: option.splits)

lemma isMuted_step: "ev \<noteq> ToggleMute \<Longrightarrow> isMuted (step ev s) = isMuted s"
  by (cases ev)
     (simp_all add: isMuted_props_changed isMuted_onaudioprocess isMuted_onmessage
        isMuted_renderVisualizer isMuted_transcript_timeout onopen_def onclose_def onerror_def
        onended_def split: option.splits)

text \<open>
  Claim C9. The mute flag is written by the mute button only: after any run of events
  without a toggle (start, stop, mode change, a refused microphone, connection errors,
  messages, frames, ticks, timers) it is what it was before.
\<close>

theorem mute_survives_lifecycle:
  assumes "ToggleMute \<notin> set evs"
  shows "isMuted (run evs s) = isMuted s"
  using assms
proof (induction evs arbitrary: s)
  case Nil
  show ?case by (simp add: run_def)
next
  case (Cons ev evs)
  then have "ev \<noteq> ToggleMute" and "ToggleMute \<notin> set evs" by auto
  then have "isMuted (run evs (step ev s)) = isMuted s"
    using Cons.IH [of "step ev s"] by (simp add: isMuted_step)
  then show ?case by (simp add: run_def)
qed

text \<open>
  The user mutes; then the session is started, opens, fails, is closed, is started again
  with the microphone refused, and once more in another mode: still muted.
\<close>

theorem mute_survives_lifecycle_witness:
  "ToggleMute \<notin> set [PropsChanged True Collaborative (Inr ()) sample_tick, OnOpen, OnError,
                       PropsChanged False Collaborative (Inr ()) sample_tick,
                       PropsChanged True Hierarchical (Inl NotAllowedError) sample_tick,
                       PropsChanged True Competitive (Inr ()) sample_tick]
   \<and> isMuted (toggle_mute mounted)
   \<and> isMuted (run [PropsChanged True Collaborative (Inr ()) sample_tick, OnOpen, OnError,
                    PropsChanged False Collaborative (Inr ()) sample_tick,
                    PropsChanged True Hierarchical (Inl NotAllowedError) sample_tick,
                    PropsChanged True Competitive (Inr ()) sample_tick]
                (toggle_mute mounted))"
proof -
  let ?evs = "[PropsChanged True Collaborative (Inr ()) sample_tick, OnOpen, OnError,
               PropsChanged False Collaborative (Inr ()) sample_tick,
               PropsChanged True Hierarchical (Inl NotAllowedError) sample_tick,
               PropsChanged True Competitive (Inr ()) sample_tick]"
  have h: "ToggleMute \<notin> set ?evs" by simp
  have m: "isMuted (toggle_mute mounted)" by (simp add: toggle_mute_def mounted_def)
  from mute_survives_lifecycle [OF h, of "toggle_mute mounted"] m
  have "isMuted (run ?evs (toggle_mute mounted))" by simp
  with h m show ?thesis by simp
qed

subsection \<open>Mode change\<close>

lemma startSession_granted_connections:
  "open_connections (startSession mode (Inr u) tick s)
     = open_connections s @ [(the (sessionRef (startSession mode (Inr u) tick s)), mode)]"
  by (simp add: startSession_def renderVisualizer_def Let_def)

text \<open>
  Claim C7, as the code has it. When the mode changes while a session is active, the
  cleanup runs \<open>stopSession\<close> before \<open>startSession\<close> opens the new connection: the
  microphone stream is released, the playback context is closed, and the references to
  stream, input node and session are dropped. The old connection is not closed: dropping
  the reference is all that happens to it, and the new connection is opened next to it.
\<close>

theorem mode_change_keeps_old_connection:
  assumes "streamRef s = Some stream" and "audioContextRef s = Some ctx"
  shows "stream \<notin> set (live_streams (stopSession s))
       \<and> ctx \<notin> set (open_contexts (stopSession s))
       \<and> streamRef (stopSession s) = None
       \<and> inputNodeRef (stopSession s) = None
       \<and> sessionRef (stopSession s) = None
       \<and> open_connections (stopSession s) = open_connections s
       \<and> props_changed True mode (Inr ()) tick s = startSession mode (Inr ()) tick (stopSession s)
       \<and> open_connections (props_changed True mode (Inr ()) tick s)
           = open_connections s
             @ [(the (sessionRef (props_changed True mode (Inr ()) tick s)), mode)]"
proof -
  have "stream \<notin> set (live_streams (stopSession s))"
    and "ctx \<notin> set (open_contexts (stopSession s))"
    and "streamRef (stopSession s) = None"
    and "inputNodeRef (stopSession s) = None"
    and "sessionRef (stopSession s) = None"
    using assms by (simp_all add: stopSession_def)
  moreover have "props_changed True mode (Inr ()) tick s
      = startSession mode (Inr ()) tick (stopSession s)"
    by (simp add: props_changed_def effect_body_def)
  moreover have "open_connections (startSession mode (Inr ()) tick (stopSession s))
           = open_connections s
             @ [(the (sessionRef (startSession mode (Inr ()) tick (stopSession s))), mode)]"
    using startSession_granted_connections [of mode "()" tick "stopSession s"]
    by (simp add: stopSession_playback)
  ultimately show ?thesis by (simp add: stopSession_playback)
qed

theorem mode_change_keeps_old_connection_witness:
  "streamRef active_session = Some 3
   \<and> audioContextRef active_session = Some 1
   \<and> 3 \<notin> set (live_streams (stopSession active_session))
   \<and> 1 \<notin> set (open_contexts (stopSession active_session))
   \<and> sessionRef (stopSession active_session) = None
   \<and> open_connections (stopSession active_session) = open_connections active_session
   \<and> open_connections (props_changed True Competitive (Inr ()) sample_tick active_session)
       = open_connections active_session
         @ [(the (sessionRef (props_changed True Competitive (Inr ()) sample_tick active_session)),
             Competitive)]"
proof -
  have a: "streamRef active_session = Some 3" by (simp add: unfold_active_session)
  have b: "audioContextRef active_session = Some 1" by (simp add: unfold_active_session)
  show ?thesis
    using a b mode_change_keeps_old_connection [OF a b, of Competitive sample_tick] by blast
qed

text \<open>
  The running session in mode \<open>Collaborative\<close> is switched to \<open>Competitive\<close>:
  connection 7 is still open when connection 14 is.
\<close>

theorem two_open_connections_counterexample:
  "open_connections active_session = [(7, Collaborative)]
   \<and> open_connections
        (step (PropsChanged True Competitive (Inr ()) sample_tick) active_session)
       = [(7, Collaborative), (14, Competitive)]
   \<and> sessionRef (step (PropsChanged True Competitive (Inr ()) sample_tick) active_session)
       = Some 14"
  by (simp add: unfold_active_session props_changed_def effect_body_def startSession_def
      stopSession_def renderVisualizer_def sample_tick_def Let_def)

subsection \<open>Transcript\<close>

lemma transcript_playAudio: "transcript (playAudio b now s) = transcript s"
  by (simp add: playAudio_def Let_def)

lemma transcript_setTranscript: "transcript (setTranscript t s) = t"
  by (simp add: setTranscript_def split: option.splits)

lemma handleServerMessage_two_frames:
  "handleServerMessage two_frames now s = Inr (onmessage two_frames now s)"
proof -
  obtain s' where h: "handleServerMessage two_frames now s = Inr s'"
    using handleServerMessage_success [OF two_frames_decodes, of now s] by blast
  then show ?thesis by (simp add: onmessage_def)
qed

text \<open>
  Claim C10. When the handler completes on a message that carries an output
  transcription (a non-empty text), the transcript becomes that delta with source
  \<open>ai\<close>, whatever input transcription the message carries as well: the input delta is
  used only when there is no output delta. The delta is appended to the text the
  transcript had when its source is the delta's source; otherwise (another source, or no
  transcript, as after the timeout) the delta replaces the text.
\<close>

theorem output_delta_wins:
  assumes "handleServerMessage msg now s = Inr s'"
  shows "transcript s' =
           (if truthy (outputTranscription msg)
            then Some \<lparr>tr_text =
                         (case transcript s of
                            None \<Rightarrow> []
                          | Some prev \<Rightarrow> if tr_source prev = AI then tr_text prev else [])
                         @ the (outputTranscription msg),
                       tr_source = AI\<rparr>
            else if truthy (inputTranscription msg)
            then Some \<lparr>tr_text =
                         (case transcript s of
                            None \<Rightarrow> []
                          | Some prev \<Rightarrow> if tr_source prev = User then tr_text prev else [])
                         @ the (inputTranscription msg),
                       tr_source = User\<rparr>
            else transcript s)"
  using assms
  by (auto simp add: handleServerMessage_def transcript_playAudio transcript_setTranscript
      append_delta_def split: if_splits sum.splits)

text \<open>
  The message with both transcriptions, twice in the running session: the transcript is
  the output delta, then the output delta appended to it; the input delta never shows.
\<close>

theorem output_delta_wins_witness:
  "handleServerMessage two_frames 1 active_session = Inr (onmessage two_frames 1 active_session)
   \<and> truthy (outputTranscription two_frames)
   \<and> truthy (inputTranscription two_frames)
   \<and> transcript (onmessage two_frames 1 active_session)
       = Some \<lparr>tr_text = ''Hello'', tr_source = AI\<rparr>
   \<and> handleServerMessage two_frames 2 (onmessage two_frames 1 active_session)
       = Inr (onmessage two_frames 2 (onmessage two_frames 1 active_session))
   \<and> transcript (onmessage two_frames 2 (onmessage two_frames 1 active_session))
       = Some \<lparr>tr_text = ''HelloHello'', tr_source = AI\<rparr>"
proof -
  have h1: "handleServerMessage two_frames 1 active_session
      = Inr (onmessage two_frames 1 active_session)"
    by (rule handleServerMessage_two_frames)
  have h2: "handleServerMessage two_frames 2 (onmessage two_frames 1 active_session)
       = Inr (onmessage two_frames 2 (onmessage two_frames 1 active_session))"
    by (rule handleServerMessage_two_frames)
  have t0: "transcript active_session = None" by (simp add: unfold_active_session)
  have o: "outputTranscription two_frames = Some ''Hello''"
    and i: "inputTranscription two_frames = Some ''Hi''"
    by (simp_all add: two_frames_def)
  have t1: "transcript (onmessage two_frames 1 active_session)
       = Some \<lparr>tr_text = ''Hello'', tr_source = AI\<rparr>"
    using output_delta_wins [OF h1] by (simp add: o t0)
  have t2: "transcript (onmessage two_frames 2 (onmessage two_frames 1 active_session))
       = Some \<lparr>tr_text = ''HelloHello'', tr_source = AI\<rparr>"
    using output_delta_wins [OF h2] by (simp add: o t1)
  show ?thesis using h1 h2 t1 t2 by (simp add: o i)
qed

end
